theory Spec2Isabelle
  imports Complex_Main "HOL-Library.Word"
begin

section \<open>Data model of sas26.cc\<close>

text \<open>
  The program keeps its statistics in global variables that the trace callbacks of the
  simulator update. The globals are gathered in the record \<open>state\<close>, one field per
  variable, under the variable's name; every callback takes the state and returns the new
  one. Command-line settings that no callback writes are the record \<open>config\<close>.

  Numbers. The counters are C++ \<open>int\<close>s and are modelled as unbounded integers:
  an increment is not checked for overflow, the products of \<open>PrintMainData\<close> are.
  A \<open>double\<close> is modelled by the real number it holds. The times and the delay of a
  packet, which the callbacks compare with the deadline and with the marker \<open>-1\<close>,
  are computed as the program computes them, every operation rounded on its own to the
  nearest \<open>double\<close> (\<open>dbl_round\<close>). The sums that the callbacks only accumulate are
  added exactly: their rounding is not modelled, and no branch depends on them. Division
  is the one operation of the program that leaves the finite numbers, so the values
  computed by \<open>PrintMainData\<close> are of the type \<open>double\<close> below, which adds
  the infinities and NaN of IEEE 754. Packet identifiers are \<open>uint64_t\<close>, the
  ledger's keys are their conversion to \<open>int\<close>, that is their low 32 bits.
\<close>

datatype PktStatus = SENT | OK | LOST | EXPIRED

text \<open>
  The message type of \<open>AppTag\<close> (app-tag.h is not part of the file): the
  callbacks compare it with \<open>IMR\<close> and \<open>PCC\<close> and have a branch for neither.
\<close>

datatype MsgType = IMR | PCC | OtherMsg

datatype error = OutOfBounds | SignedOverflow

record PacketInfo =
  m_pktId :: "32 word"
  m_edId :: "32 word"
  m_txTime :: real
  m_delay :: real
  m_cpsrDelay :: real
  m_status :: PktStatus

text \<open>The constructor \<open>PacketInfo(pktId, edId, txTime)\<close>.\<close>

definition mkPacketInfo :: "32 word \<Rightarrow> 32 word \<Rightarrow> real \<Rightarrow> PacketInfo" where
  "mkPacketInfo pktId edId txTime =
     \<lparr>m_pktId = pktId, m_edId = edId, m_txTime = txTime,
      m_delay = - 1, m_cpsrDelay = - 1, m_status = SENT\<rparr>"

text \<open>
  What the callbacks read from a packet: its uid, the receive power and spreading factor
  of its \<open>LoraTag\<close>, the message type of its \<open>AppTag\<close>.
\<close>

record Packet =
  uid :: "64 word"
  receivePower :: real
  spreadingFactor :: "8 word"
  msgType :: MsgType

text \<open>\<open>(int) pkt->GetUid()\<close>: the low 32 bits.\<close>

definition pktId :: "Packet \<Rightarrow> 32 word" where
  "pktId p = ucast (uid p)"

record config =
  nDevices :: int
  payloadSize :: int
  simulationTimeSeconds :: real
  txMode :: string
  sfa :: string
  nRun :: int

text \<open>
  The field \<open>endDevices\<close> stands for the \<open>NodeContainer\<close> of the end devices:
  one entry per node, holding the data rate of the node's MAC layer, the only attribute
  of a device that a callback writes.
\<close>

record state =
  pktInfoMap :: "32 word \<rightharpoonup> PacketInfo"
  expiredPkts :: "64 word list"
  interfPkts :: "64 word list"
  underPkts :: "64 word list"
  busyPkts :: "64 word list"
  noMorePkts :: "64 word list"
  okPkts :: "64 word list"
  nSent :: int
  nRec :: int
  nRetx :: int
  nReqTx :: int
  nRecAck :: int
  sumDelay :: real
  sumRssi :: real
  sumPktsRssi :: real
  sumSnr :: real
  sumPktsSnr :: real
  consumption :: real
  nTotalPkts :: int
  nLost :: int
  nInterf :: int
  nUnder :: int
  nBusy :: int
  nNoMore :: int
  nExpired :: int
  sfDist :: "int list"
  nSentPerHour :: int
  nRecPerHour :: int
  pdrsPerHourVec :: "real list"
  endDevices :: "8 word list"
  interfPerSf :: "int list"
  underPerSf :: "int list"
  expPerSf :: "int list"
  busyPerSf :: "int list"
  noMorePerSf :: "int list"
  delayPerApp :: "real list"
  nImrSent :: int
  nPccSent :: int
  nImrRec :: int
  nPccRec :: int

text \<open>The initial values of the globals, with the end devices that \<open>main\<close> creates.\<close>

definition init_state :: "8 word list \<Rightarrow> state" where
  "init_state devs =
     \<lparr>pktInfoMap = Map.empty,
      expiredPkts = [], interfPkts = [], underPkts = [], busyPkts = [],
      noMorePkts = [], okPkts = [],
      nSent = 0, nRec = 0, nRetx = 0, nReqTx = 0, nRecAck = 0,
      sumDelay = 0, sumRssi = 0, sumPktsRssi = 0, sumSnr = 0, sumPktsSnr = 0,
      consumption = 0,
      nTotalPkts = 0, nLost = 0, nInterf = 0, nUnder = 0, nBusy = 0, nNoMore = 0,
      nExpired = 0,
      sfDist = replicate 6 0,
      nSentPerHour = 0, nRecPerHour = 0,
      pdrsPerHourVec = [],
      endDevices = devs,
      interfPerSf = replicate 6 0, underPerSf = replicate 6 0, expPerSf = replicate 6 0,
      busyPerSf = replicate 6 0, noMorePerSf = replicate 6 0,
      delayPerApp = replicate 2 0,
      nImrSent = 0, nPccSent = 0, nImrRec = 0, nPccRec = 0\<rparr>"

definition imrDelay :: real where
  "imrDelay = 60 * 1000"

definition pccDelay :: real where
  "pccDelay = 1 * 1000"

section \<open>The callbacks\<close>

text \<open>
  \<open>v[i] += d\<close> on a \<open>std::vector\<close>: outside the vector the behaviour is undefined,
  which the model reports as the error \<open>OutOfBounds\<close>.
\<close>

definition vec_add :: "('a::plus) list \<Rightarrow> int \<Rightarrow> 'a \<Rightarrow> error + 'a list" where
  "vec_add v i d =
     (if 0 \<le> i \<and> i < int (length v) then Inr (v[nat i := v ! nat i + d])
      else Inl OutOfBounds)"

definition RxPowerToSNR :: "real \<Rightarrow> real" where
  "RxPowerToSNR transmissionPower = transmissionPower + 174 - 10 * log 10 125000 - 6"

text \<open>
  Rounding to \<open>double\<close>. \<open>rne\<close> rounds a real number to the nearest integer,
  a tie to the even one. \<open>dbl_round\<close> rounds a real number to 53 significant bits
  in the same way: \<open>u\<close> is the distance between neighbouring doubles at the size of
  \<open>x\<close>. Overflow to infinity and the subnormal numbers are not modelled; the times of
  a simulation are far from both.
\<close>

definition rne :: "real \<Rightarrow> int" where
  "rne q = (let f = \<lfloor>q\<rfloor>; r = q - of_int f
            in if r < 1 / 2 then f
               else if 1 / 2 < r then f + 1
               else if even f then f else f + 1)"

definition dbl_round :: "real \<Rightarrow> real" where
  "dbl_round x =
     (if x = 0 then 0
      else let u = 2 powr of_int (\<lfloor>log 2 \<bar>x\<bar>\<rfloor> - 52)
           in sgn x * (of_int (rne (\<bar>x\<bar> / u)) * u))"

text \<open>The literal \<open>1e-6\<close>: the double nearest to one millionth.\<close>

definition dbl_1e_6 :: real where
  "dbl_1e_6 = dbl_round (1 / 1000000)"

text \<open>
  \<open>Simulator::Now().GetNanoSeconds() * 1e-6\<close>, the time in milliseconds: the
  \<open>int64_t\<close> is converted to \<open>double\<close> and multiplied by the literal.
\<close>

definition ms_of_ns :: "int \<Rightarrow> real" where
  "ms_of_ns t = dbl_round (dbl_round (real_of_int t) * dbl_1e_6)"

definition Sent :: "state \<Rightarrow> Packet \<Rightarrow> 32 word \<Rightarrow> int \<Rightarrow> state" where
  "Sent s pkt edId now =
     (case pktInfoMap s (pktId pkt) of
        Some info \<Rightarrow> s\<lparr>nRetx := nRetx s + 1\<rparr>
      | None \<Rightarrow>
          let txTime = ms_of_ns now;
              pktInfo = (mkPacketInfo (pktId pkt) edId txTime)\<lparr>m_status := SENT\<rparr>;
              s1 = s\<lparr>pktInfoMap := (pktInfoMap s)(pktId pkt \<mapsto> pktInfo)\<rparr>;
              s2 = (if msgType pkt = IMR then s1\<lparr>nImrSent := nImrSent s1 + 1\<rparr>
                    else if msgType pkt = PCC then s1\<lparr>nPccSent := nPccSent s1 + 1\<rparr>
                    else s1)
          in s2\<lparr>nSent := nSent s2 + 1, nSentPerHour := nSentPerHour s2 + 1\<rparr>)"

text \<open>
  \<open>GetEdId\<close> returns the \<open>int\<close> \<open>-1\<close> for a packet without record; the caller
  passes the result to \<open>NodeContainer::Get(uint32_t)\<close>, a conversion that keeps the 32
  bits, so the result is kept as a 32-bit word (\<open>-1\<close> is \<open>0xFFFFFFFF\<close>).
\<close>

definition GetEdId :: "state \<Rightarrow> Packet \<Rightarrow> 32 word" where
  "GetEdId s pkt =
     (case pktInfoMap s (pktId pkt) of None \<Rightarrow> - 1 | Some info \<Rightarrow> m_edId info)"

definition ComputeLqi :: "state \<Rightarrow> Packet \<Rightarrow> state" where
  "ComputeLqi s pkt =
     s\<lparr>sumPktsRssi := sumPktsRssi s + receivePower pkt,
       sumPktsSnr := sumPktsSnr s + RxPowerToSNR (receivePower pkt),
       nTotalPkts := nTotalPkts s + 1\<rparr>"

definition GetIndexBasedOnSf :: "Packet \<Rightarrow> int" where
  "GetIndexBasedOnSf pkt = uint (spreadingFactor pkt) - 7"

definition Ok :: "state \<Rightarrow> Packet \<Rightarrow> 32 word \<Rightarrow> int \<Rightarrow> error + state" where
  "Ok s pkt gwId now =
     (case pktInfoMap s (pktId pkt) of
        None \<Rightarrow> Inr s
      | Some info \<Rightarrow>
          let s1 = ComputeLqi s pkt in
          if m_delay info \<noteq> - 1 then Inr s1
          else
            let rssi = receivePower pkt;
                snr = RxPowerToSNR rssi;
                delay = dbl_round (ms_of_ns now - m_txTime info);
                info1 = info\<lparr>m_delay := delay\<rparr>;
                s2 = s1\<lparr>sumRssi := sumRssi s1 + rssi, sumSnr := sumSnr s1 + snr,
                        sumDelay := sumDelay s1 + delay\<rparr>
            in
              if msgType pkt = IMR \<and> delay \<le> imrDelay then
                (case vec_add (delayPerApp s2) 0 delay of
                   Inl e \<Rightarrow> Inl e
                 | Inr d \<Rightarrow>
                     Inr (s2\<lparr>pktInfoMap := (pktInfoMap s2)(pktId pkt \<mapsto> info1\<lparr>m_status := OK\<rparr>),
                             nImrRec := nImrRec s2 + 1,
                             nRec := nRec s2 + 1,
                             nRecPerHour := nRecPerHour s2 + 1,
                             okPkts := okPkts s2 @ [uid pkt],
                             delayPerApp := d\<rparr>))
              else if msgType pkt = PCC \<and> delay \<le> pccDelay then
                (case vec_add (delayPerApp s2) 1 delay of
                   Inl e \<Rightarrow> Inl e
                 | Inr d \<Rightarrow>
                     Inr (s2\<lparr>pktInfoMap := (pktInfoMap s2)(pktId pkt \<mapsto> info1\<lparr>m_status := OK\<rparr>),
                             nPccRec := nPccRec s2 + 1,
                             nRec := nRec s2 + 1,
                             nRecPerHour := nRecPerHour s2 + 1,
                             okPkts := okPkts s2 @ [uid pkt],
                             delayPerApp := d\<rparr>))
              else
                (case vec_add (expPerSf s2) (GetIndexBasedOnSf pkt) 1 of
                   Inl e \<Rightarrow> Inl e
                 | Inr v \<Rightarrow>
                     Inr (s2\<lparr>pktInfoMap := (pktInfoMap s2)(pktId pkt \<mapsto> info1\<lparr>m_status := EXPIRED\<rparr>),
                             nExpired := nExpired s2 + 1,
                             expiredPkts := expiredPkts s2 @ [uid pkt],
                             expPerSf := v\<rparr>)))"

text \<open>
  In \<open>Interf\<close> the index \<open>sf - 7\<close> is computed on \<open>int\<close>; \<open>dr\<close> is the
  \<open>uint8_t\<close> \<open>12 - sf\<close>. \<open>NodeContainer::Get(i)\<close> indexes a vector, and
  \<open>SetDataRate\<close> stores the rate in the device's MAC layer.
\<close>

definition Interf :: "config \<Rightarrow> state \<Rightarrow> Packet \<Rightarrow> 32 word \<Rightarrow> error + state" where
  "Interf cfg s pkt gwId =
     (let s1 = s\<lparr>nInterf := nInterf s + 1, nLost := nLost s + 1\<rparr>;
          s2 = ComputeLqi s1 pkt;
          sf = spreadingFactor pkt
      in case vec_add (interfPerSf s2) (uint sf - 7) 1 of
           Inl e \<Rightarrow> Inl e
         | Inr v \<Rightarrow>
             let s3 = s2\<lparr>interfPerSf := v, interfPkts := interfPkts s2 @ [uid pkt]\<rparr> in
             if sfa cfg = ''asfa'' then
               let edId = GetEdId s3 pkt in
               if unat edId < length (endDevices s3) then
                 let dr = 12 - sf in
                 Inr (s3\<lparr>endDevices :=
                          (endDevices s3)[unat edId := (if dr > 0 then dr - 1 else 0)]\<rparr>)
               else Inl OutOfBounds
             else Inr s3)"

definition Under :: "state \<Rightarrow> Packet \<Rightarrow> 32 word \<Rightarrow> error + state" where
  "Under s pkt gwId =
     (let s1 = s\<lparr>nUnder := nUnder s + 1, nLost := nLost s + 1\<rparr>;
          s2 = ComputeLqi s1 pkt;
          s3 = s2\<lparr>underPkts := underPkts s2 @ [uid pkt]\<rparr>
      in case vec_add (underPerSf s3) (GetIndexBasedOnSf pkt) 1 of
           Inl e \<Rightarrow> Inl e
         | Inr v \<Rightarrow> Inr (s3\<lparr>underPerSf := v\<rparr>))"

definition NoMore :: "state \<Rightarrow> Packet \<Rightarrow> 32 word \<Rightarrow> error + state" where
  "NoMore s pkt gwId =
     (let s1 = s\<lparr>nNoMore := nNoMore s + 1, nLost := nLost s + 1\<rparr>;
          s2 = ComputeLqi s1 pkt;
          s3 = s2\<lparr>noMorePkts := noMorePkts s2 @ [uid pkt]\<rparr>
      in case vec_add (noMorePerSf s3) (GetIndexBasedOnSf pkt) 1 of
           Inl e \<Rightarrow> Inl e
         | Inr v \<Rightarrow> Inr (s3\<lparr>noMorePerSf := v\<rparr>))"

definition Busy :: "state \<Rightarrow> Packet \<Rightarrow> 32 word \<Rightarrow> error + state" where
  "Busy s pkt gwId =
     (let s1 = s\<lparr>nBusy := nBusy s + 1, nLost := nLost s + 1\<rparr>;
          s2 = ComputeLqi s1 pkt;
          s3 = s2\<lparr>busyPkts := busyPkts s2 @ [uid pkt]\<rparr>
      in case vec_add (busyPerSf s3) (GetIndexBasedOnSf pkt) 1 of
           Inl e \<Rightarrow> Inl e
         | Inr v \<Rightarrow> Inr (s3\<lparr>busyPerSf := v\<rparr>))"

text \<open>
  \<open>RequiredTransmissionsCallback\<close>: the packet pointer may be null; \<open>now\<close> and
  \<open>firstAttempt\<close> are in nanoseconds.
\<close>

definition RequiredTransmissionsCallback ::
    "state \<Rightarrow> 8 word \<Rightarrow> bool \<Rightarrow> int \<Rightarrow> Packet option \<Rightarrow> int \<Rightarrow> state" where
  "RequiredTransmissionsCallback s reqTx success firstAttempt packet now =
     (case packet of
        None \<Rightarrow> s
      | Some pkt \<Rightarrow>
          (case pktInfoMap s (pktId pkt) of
             None \<Rightarrow> s
           | Some info \<Rightarrow>
               if success \<and> m_cpsrDelay info = - 1 then
                 s\<lparr>pktInfoMap := (pktInfoMap s)(pktId pkt \<mapsto>
                      info\<lparr>m_cpsrDelay := dbl_round (ms_of_ns now - ms_of_ns firstAttempt)\<rparr>),
                   nRecAck := nRecAck s + 1,
                   nReqTx := nReqTx s + uint reqTx\<rparr>
               else s))"

text \<open>
  \<open>CalcPdrsPerHour\<close>, the hourly tick. It ends by scheduling itself one hour later,
  which belongs to the simulator and is not part of the state.
\<close>

definition CalcPdrsPerHour :: "state \<Rightarrow> state" where
  "CalcPdrsPerHour s =
     (let pdr = (if nSentPerHour s > 0
                 then (1 * real_of_int (nRecPerHour s) / real_of_int (nSentPerHour s)) * 100
                 else 0)
      in s\<lparr>pdrsPerHourVec := pdrsPerHourVec s @ [if pdr \<le> 100 then pdr else 100],
           nSentPerHour := 0,
           nRecPerHour := 0\<rparr>)"

definition ClearData :: "state \<Rightarrow> state" where
  "ClearData s =
     s\<lparr>pktInfoMap := Map.empty,
       sfDist := [],
       pdrsPerHourVec := [],
       interfPerSf := [],
       expiredPkts := [],
       interfPkts := [],
       underPkts := [],
       busyPkts := [],
       noMorePkts := [],
       okPkts := [],
       underPerSf := [],
       expPerSf := [],
       noMorePerSf := [],
       busyPerSf := [],
       delayPerApp := []\<rparr>"

text \<open>
  \<open>CalcEnergyConsumption\<close> adds up what the energy model of each node reports; a node
  without energy source or model (\<open>None\<close>) is skipped.
\<close>

fun sum_energy :: "real \<Rightarrow> real option list \<Rightarrow> real" where
  "sum_energy c [] = c"
| "sum_energy c (None # es) = sum_energy c es"
| "sum_energy c (Some e # es) = sum_energy (c + e) es"

definition CalcEnergyConsumption :: "real option list \<Rightarrow> state \<Rightarrow> state" where
  "CalcEnergyConsumption energies s = s\<lparr>consumption := sum_energy 0 energies\<rparr>"

section \<open>The key figures of PrintMainData\<close>

text \<open>
  The values of type \<open>double\<close> that a division can produce. A finite value divided by
  zero is an infinity, zero divided by zero is NaN; no exception is raised. The sign of a
  zero is not modelled: zero counts as \<open>+0.0\<close>.
\<close>

datatype double = Fin real | PInf | NInf | NaN

fun ddiv :: "double \<Rightarrow> double \<Rightarrow> double" where
  "ddiv NaN _ = NaN"
| "ddiv _ NaN = NaN"
| "ddiv (Fin x) (Fin y) =
     (if y \<noteq> 0 then Fin (x / y)
      else if x = 0 then NaN
      else if x > 0 then PInf else NInf)"
| "ddiv (Fin x) PInf = Fin 0"
| "ddiv (Fin x) NInf = Fin 0"
| "ddiv PInf (Fin y) = (if y \<ge> 0 then PInf else NInf)"
| "ddiv NInf (Fin y) = (if y \<ge> 0 then NInf else PInf)"
| "ddiv PInf PInf = NaN"
| "ddiv PInf NInf = NaN"
| "ddiv NInf PInf = NaN"
| "ddiv NInf NInf = NaN"

fun dmul :: "double \<Rightarrow> double \<Rightarrow> double" where
  "dmul NaN _ = NaN"
| "dmul _ NaN = NaN"
| "dmul (Fin x) (Fin y) = Fin (x * y)"
| "dmul (Fin x) PInf = (if x = 0 then NaN else if x > 0 then PInf else NInf)"
| "dmul (Fin x) NInf = (if x = 0 then NaN else if x > 0 then NInf else PInf)"
| "dmul PInf (Fin y) = (if y = 0 then NaN else if y > 0 then PInf else NInf)"
| "dmul NInf (Fin y) = (if y = 0 then NaN else if y > 0 then NInf else PInf)"
| "dmul PInf PInf = PInf"
| "dmul PInf NInf = NInf"
| "dmul NInf PInf = NInf"
| "dmul NInf NInf = PInf"

text \<open>The conversion of an \<open>int\<close> to \<open>double\<close>.\<close>

definition dint :: "int \<Rightarrow> double" where
  "dint n = Fin (real_of_int n)"

text \<open>
  The product of two \<open>int\<close>s: outside the 32-bit range the behaviour is undefined,
  which the model reports as the error \<open>SignedOverflow\<close>. \<open>payload_bits\<close> is
  the expression \<open>nRec * payloadSize * 8\<close> of \<open>PrintMainData\<close>.
\<close>

definition int_mul :: "int \<Rightarrow> int \<Rightarrow> error + int" where
  "int_mul a b =
     (if - (2 ^ 31) \<le> a * b \<and> a * b < 2 ^ 31 then Inr (a * b) else Inl SignedOverflow)"

definition payload_bits :: "config \<Rightarrow> state \<Rightarrow> error + int" where
  "payload_bits cfg s =
     (case int_mul (nRec s) (payloadSize cfg) of
        Inl e \<Rightarrow> Inl e
      | Inr p \<Rightarrow> int_mul p 8)"

text \<open>
  The local variables of \<open>PrintMainData\<close> that are computed on every path;
  \<open>bits\<close> is the value of \<open>nRec * payloadSize * 8\<close>.
\<close>

record kpis =
  pdr :: double
  imrPdr :: double
  billingPdr :: double
  avgDelay :: double
  avgRssi :: double
  avgSnr :: double
  energyCons :: double
  tput :: double
  ee1 :: double
  ee2 :: double
  ee3 :: double
  ee4 :: double
  avgPktsRssi :: double
  avgPktsSnr :: double

definition MainData :: "config \<Rightarrow> state \<Rightarrow> int \<Rightarrow> kpis" where
  "MainData cfg s bits =
     (let pdr = dmul (if nSent s > 0 then ddiv (dmul (Fin 1) (dint (nRec s))) (dint (nSent s))
                      else Fin 0) (Fin 100);
          imrPdr = dmul (if nImrSent s > 0
                         then ddiv (dmul (Fin 1) (dint (nImrRec s))) (dint (nImrSent s))
                         else Fin 0) (Fin 100);
          billingPdr = dmul (if nPccSent s > 0
                             then ddiv (dmul (Fin 1) (dint (nPccRec s))) (dint (nPccSent s))
                             else Fin 0) (Fin 100);
          avgDelay = (if nRec s > 0 then ddiv (Fin (sumDelay s)) (dint (nRec s)) else Fin 0);
          avgRssi = (if nRec s > 0 then ddiv (Fin (sumRssi s)) (dint (nRec s)) else Fin 0);
          avgSnr = (if nRec s > 0 then ddiv (Fin (sumSnr s)) (dint (nRec s)) else Fin 0);
          energyCons = ddiv (Fin (consumption s)) (dint (nDevices cfg));
          tput = ddiv (dint bits) (Fin (simulationTimeSeconds cfg));
          ee1 = ddiv (dint bits) (Fin (consumption s));
          ee2 = ddiv (dint bits) energyCons;
          ee3 = ddiv tput energyCons;
          ee4 = ddiv tput (Fin (consumption s));
          avgPktsRssi = (if nTotalPkts s > 0
                         then ddiv (Fin (sumPktsRssi s)) (dint (nTotalPkts s)) else Fin 0);
          avgPktsSnr = (if nTotalPkts s > 0
                        then ddiv (Fin (sumPktsSnr s)) (dint (nTotalPkts s)) else Fin 0)
      in \<lparr>pdr = pdr, imrPdr = imrPdr, billingPdr = billingPdr, avgDelay = avgDelay,
          avgRssi = avgRssi, avgSnr = avgSnr, energyCons = energyCons, tput = tput,
          ee1 = ee1, ee2 = ee2, ee3 = ee3, ee4 = ee4,
          avgPktsRssi = avgPktsRssi, avgPktsSnr = avgPktsSnr\<rparr>)"

text \<open>
  \<open>PrintMainData\<close> appends one line to the data file. The model returns the numbers of
  that line, in the order written; no line is written for a transmission mode other than
  \<open>ack\<close> and \<open>nack\<close>. The \<open>nack\<close> line reads \<open>delayPerApp[0]\<close> and
  \<open>delayPerApp[1]\<close>.
\<close>

definition PrintMainData :: "config \<Rightarrow> state \<Rightarrow> error + double list" where
  "PrintMainData cfg s =
     (case payload_bits cfg s of
        Inl e \<Rightarrow> Inl e
      | Inr bits \<Rightarrow>
          let k = MainData cfg s bits in
          if txMode cfg = ''ack'' then
            let cpsr = (if nRec s > 0
                        then dmul (ddiv (dmul (Fin 1) (dint (nRecAck s))) (dint (nRec s)))
                               (Fin 100)
                        else Fin 0)
            in Inr [dint (nSent s), dint (nRec s), pdr k, dint (nImrSent s), dint (nImrRec s),
                    imrPdr k, dint (nPccSent s), dint (nPccRec s), billingPdr k, avgDelay k,
                    avgRssi k, avgSnr k, energyCons k, tput k, ee1 k, ee2 k, ee3 k, ee4 k,
                    dint (nReqTx s), dint (nRecAck s), cpsr, avgPktsRssi k, avgPktsSnr k,
                    dint (nRun cfg)]
          else if txMode cfg = ''nack'' then
            (if length (delayPerApp s) < 2 then Inl OutOfBounds
             else Inr [dint (nSent s), dint (nRec s), pdr k, dint (nImrSent s),
                       dint (nImrRec s), imrPdr k, dint (nPccSent s), dint (nPccRec s),
                       billingPdr k, avgDelay k,
                       ddiv (Fin (delayPerApp s ! 0)) (dint (nImrRec s)),
                       ddiv (Fin (delayPerApp s ! 1)) (dint (nPccRec s)),
                       avgRssi k, avgSnr k, energyCons k, tput k, ee1 k, ee2 k, ee3 k, ee4 k,
                       avgPktsRssi k, avgPktsSnr k, dint (nRun cfg)])
          else Inr [])"

section \<open>Runs\<close>

text \<open>
  The simulator calls the callbacks one at a time, in the order of its event queue. An
  event names the callback and its arguments; the events of \<open>Sent\<close>, \<open>Ok\<close> and
  \<open>RequiredTransmissionsCallback\<close> carry the simulated time in nanoseconds that the
  callback reads from \<open>Simulator::Now()\<close>.
\<close>

datatype event =
    EvSent Packet "32 word" int
  | EvOk Packet "32 word" int
  | EvInterf Packet "32 word"
  | EvUnder Packet "32 word"
  | EvNoMore Packet "32 word"
  | EvBusy Packet "32 word"
  | EvReqTx "8 word" bool int "Packet option" int
  | EvTick

fun step :: "config \<Rightarrow> state \<Rightarrow> event \<Rightarrow> error + state" where
  "step cfg s (EvSent pkt edId now) = Inr (Sent s pkt edId now)"
| "step cfg s (EvOk pkt gwId now) = Ok s pkt gwId now"
| "step cfg s (EvInterf pkt gwId) = Interf cfg s pkt gwId"
| "step cfg s (EvUnder pkt gwId) = Under s pkt gwId"
| "step cfg s (EvNoMore pkt gwId) = NoMore s pkt gwId"
| "step cfg s (EvBusy pkt gwId) = Busy s pkt gwId"
| "step cfg s (EvReqTx reqTx success firstAttempt packet now) =
     Inr (RequiredTransmissionsCallback s reqTx success firstAttempt packet now)"
| "step cfg s EvTick = Inr (CalcPdrsPerHour s)"

fun run :: "config \<Rightarrow> state \<Rightarrow> event list \<Rightarrow> error + state" where
  "run cfg s [] = Inr s"
| "run cfg s (e # es) = (case step cfg s e of Inl err \<Rightarrow> Inl err | Inr s' \<Rightarrow> run cfg s' es)"

section \<open>Example values\<close>

definition pkt_imr :: Packet where
  "pkt_imr = \<lparr>uid = 5, receivePower = - 100, spreadingFactor = 9, msgType = IMR\<rparr>"

definition pkt_pcc :: Packet where
  "pkt_pcc = \<lparr>uid = 6, receivePower = - 120, spreadingFactor = 12, msgType = PCC\<rparr>"

definition cfg_default :: config where
  "cfg_default = \<lparr>nDevices = 200, payloadSize = 51, simulationTimeSeconds = 24 * 60 * 60,
                   txMode = ''nack'', sfa = [], nRun = 1\<rparr>"

text \<open>The status that the ledger holds for a packet id.\<close>

definition status_of :: "32 word \<Rightarrow> state \<Rightarrow> PktStatus option" where
  "status_of i s = map_option m_status (pktInfoMap s i)"

section \<open>Runs under the simulator's clock\<close>

text \<open>
  The simulated time of successive events never decreases. \<open>ev_times\<close> is the time
  that an event carries, if any, and \<open>clock_mono\<close> says that the times of a run are
  in non-decreasing order.
\<close>

fun ev_times :: "event \<Rightarrow> int list" where
  "ev_times (EvSent pkt edId now) = [now]"
| "ev_times (EvOk pkt gwId now) = [now]"
| "ev_times (EvReqTx reqTx success firstAttempt packet now) = [now]"
| "ev_times _ = []"

definition stamps :: "event list \<Rightarrow> int list" where
  "stamps evs = concat (map ev_times evs)"

definition clock_mono :: "event list \<Rightarrow> bool" where
  "clock_mono evs = sorted (stamps evs)"

text \<open>The state after packet 5 is sent at time 0 and delivered 5 ms later.\<close>

definition s_delivered :: state where
  "s_delivered =
     (init_state [])\<lparr>pktInfoMap := [5 \<mapsto> (mkPacketInfo 5 3 0)\<lparr>m_delay := 5, m_status := OK\<rparr>],
        nImrSent := 1, nSent := 1, nSentPerHour := 1,
        sumPktsRssi := - 100, sumPktsSnr := RxPowerToSNR (- 100), nTotalPkts := 1,
        sumRssi := - 100, sumSnr := RxPowerToSNR (- 100), sumDelay := 5,
        nImrRec := 1, nRec := 1, nRecPerHour := 1, okPkts := [5], delayPerApp := [5, 0]\<rparr>"

text \<open>
  The invariant of the ledger in a run whose event times so far are \<open>ts\<close>: every
  record was sent at one of these times, and a record that is no longer \<open>SENT\<close>
  holds a delay that is not negative, hence not the marker \<open>-1\<close> of a packet that
  was not delivered yet.
\<close>

definition ledger_inv :: "int list \<Rightarrow> state \<Rightarrow> bool" where
  "ledger_inv ts s =
     (\<forall>i info. pktInfoMap s i = Some info \<longrightarrow>
        (\<exists>x\<in>set ts. m_txTime info = ms_of_ns x) \<and>
        (m_status info \<noteq> SENT \<longrightarrow> 0 \<le> m_delay info))"

section \<open>Runs in which every sent packet gets one outcome\<close>

text \<open>
  An outcome event of a packet is a delivery or one of the four losses. \<open>resolved_once\<close>
  reads a run with the set \<open>pend\<close> of the packet ids that were sent and have no
  outcome yet, and the set \<open>seen\<close> of all ids sent so far: every outcome event must be
  for a pending id, which it resolves, and at the end no id is pending. So each sent packet
  gets exactly one outcome event, after its first send, and no outcome event is for a
  packet that was not sent. Further send events of a known id are retransmissions.
\<close>

fun resolved_once :: "32 word set \<Rightarrow> 32 word set \<Rightarrow> event list \<Rightarrow> bool" where
  "resolved_once pend seen [] = (pend = {})"
| "resolved_once pend seen (EvSent pkt edId now # es) =
     (if pktId pkt \<in> seen then resolved_once pend seen es
      else resolved_once (insert (pktId pkt) pend) (insert (pktId pkt) seen) es)"
| "resolved_once pend seen (EvOk pkt gwId now # es) =
     (pktId pkt \<in> pend \<and> resolved_once (pend - {pktId pkt}) seen es)"
| "resolved_once pend seen (EvInterf pkt gwId # es) =
     (pktId pkt \<in> pend \<and> resolved_once (pend - {pktId pkt}) seen es)"
| "resolved_once pend seen (EvUnder pkt gwId # es) =
     (pktId pkt \<in> pend \<and> resolved_once (pend - {pktId pkt}) seen es)"
| "resolved_once pend seen (EvNoMore pkt gwId # es) =
     (pktId pkt \<in> pend \<and> resolved_once (pend - {pktId pkt}) seen es)"
| "resolved_once pend seen (EvBusy pkt gwId # es) =
     (pktId pkt \<in> pend \<and> resolved_once (pend - {pktId pkt}) seen es)"
| "resolved_once pend seen (EvReqTx reqTx success firstAttempt packet now # es) =
     resolved_once pend seen es"
| "resolved_once pend seen (EvTick # es) = resolved_once pend seen es"

text \<open>
  Packet 5 is sent and delivered on time, packet 6 is sent and lost under sensitivity.
\<close>

definition evs_resolved :: "event list" where
  "evs_resolved =
     [EvSent pkt_imr 3 0, EvOk pkt_imr 0 5000000, EvSent pkt_pcc 4 6000000, EvUnder pkt_pcc 0]"

text \<open>The packets that were received, expired or lost for one of the four causes.\<close>

definition outcomes :: "state \<Rightarrow> int" where
  "outcomes s = nRec s + nExpired s + (nInterf s + nUnder s + nNoMore s + nBusy s)"

text \<open>
  The invariant of such a run: the ledger holds the ids seen, the pending ones have not
  been delivered, and \<open>nSent\<close> exceeds the outcomes by the number of pending ids.
\<close>

definition count_inv :: "32 word set \<Rightarrow> 32 word set \<Rightarrow> state \<Rightarrow> bool" where
  "count_inv pend seen s =
     (finite pend \<and> pend \<subseteq> seen \<and> dom (pktInfoMap s) = seen \<and>
      (\<forall>i\<in>pend. map_option m_delay (pktInfoMap s i) = Some (- 1)) \<and>
      nSent s = int (card pend) + outcomes s)"

section \<open>Rounding to double\<close>

text \<open>
  Rounding is monotone and leaves the integers below \<open>2 ^ 53\<close> as they are, so the
  time in milliseconds is monotone in the time in nanoseconds. A number that is scaled
  into the range of 53-bit integers is rounded there, which evaluates \<open>dbl_round\<close>
  at the times of the examples.
\<close>

lemma rne_close: "\<bar>q - of_int (rne q)\<bar> \<le> 1 / 2"
  unfolding rne_def Let_def by (auto simp: abs_le_iff)

lemma rne_of_int: "rne (of_int n) = n"
  by (simp add: rne_def)

lemma rne_mono:
  assumes "q \<le> q'"
  shows "rne q \<le> rne q'"
proof (rule ccontr)
  assume "\<not> rne q \<le> rne q'"
  then have "rne q' + 1 \<le> rne q" by simp
  then have gap: "of_int (rne q') + 1 \<le> (of_int (rne q) :: real)"
    by (metis of_int_1 of_int_add of_int_le_iff)
  from rne_close [of q] have "of_int (rne q) - 1 / 2 \<le> q" by linarith
  moreover from rne_close [of q'] have "q' \<le> of_int (rne q') + 1 / 2" by linarith
  ultimately have "q = q'" using assms gap by linarith
  with \<open>\<not> rne q \<le> rne q'\<close> show False by simp
qed

lemma rne_ge: "of_int a \<le> q \<Longrightarrow> a \<le> rne q"
  using rne_mono [of "of_int a" q] by (simp add: rne_of_int)

lemma rne_le: "q \<le> of_int b \<Longrightarrow> rne q \<le> b"
  using rne_mono [of q "of_int b"] by (simp add: rne_of_int)

lemma dbl_round_0: "dbl_round 0 = 0"
  by (simp add: dbl_round_def)

lemma dbl_round_minus: "dbl_round (- x) = - dbl_round x"
  by (simp add: dbl_round_def Let_def sgn_minus)

text \<open>A positive number and its rounded value lie in the same binade.\<close>

lemma dbl_round_binade:
  assumes "0 < x"
  defines "e \<equiv> \<lfloor>log 2 x\<rfloor>"
  shows "2 powr of_int e \<le> dbl_round x" and "dbl_round x \<le> 2 powr of_int (e + 1)"
proof -
  define u :: real where "u = 2 powr of_int (e - 52)"
  have upos: "0 < u" by (simp add: u_def)
  from assms have b: "2 powr of_int e \<le> x" "x < 2 powr of_int (e + 1)"
    using floor_log_eq_powr_iff [of x 2 e] by simp_all
  have lo: "2 powr of_int e = 2 ^ 52 * u"
    by (simp add: u_def powr_diff)
  have hi: "2 powr of_int (e + 1) = 2 ^ 53 * u"
    by (simp add: u_def powr_diff powr_add)
  from b lo upos have "of_int (2 ^ 52) \<le> x / u"
    by (simp add: le_divide_eq)
  then have l: "2 ^ 52 \<le> rne (x / u)" by (rule rne_ge)
  from b hi upos have "x / u \<le> of_int (2 ^ 53)"
    by (simp add: divide_le_eq)
  then have h: "rne (x / u) \<le> 2 ^ 53" by (rule rne_le)
  have d: "dbl_round x = of_int (rne (x / u)) * u"
    using assms by (simp add: dbl_round_def Let_def u_def)
  from l have "(2 ^ 52 :: real) \<le> of_int (rne (x / u))"
    by (metis of_int_le_iff of_int_numeral of_int_power)
  with upos have "2 ^ 52 * u \<le> of_int (rne (x / u)) * u"
    by (intro mult_right_mono) simp_all
  then show "2 powr of_int e \<le> dbl_round x"
    by (simp only: d lo)
  from h have "of_int (rne (x / u)) \<le> (2 ^ 53 :: real)"
    by (metis of_int_le_iff of_int_numeral of_int_power)
  with upos have "of_int (rne (x / u)) * u \<le> 2 ^ 53 * u"
    by (intro mult_right_mono) simp_all
  then show "dbl_round x \<le> 2 powr of_int (e + 1)"
    by (simp only: d hi)
qed

lemma dbl_round_pos: "0 < x \<Longrightarrow> 0 < dbl_round x"
  using dbl_round_binade(1) [of x] powr_gt_zero [of 2 "of_int \<lfloor>log 2 x\<rfloor>"]
  by linarith

lemma dbl_round_mono_pos:
  assumes "0 < x" and "x \<le> y"
  shows "dbl_round x \<le> dbl_round y"
proof -
  from assms have ypos: "0 < y" by simp
  have le: "\<lfloor>log 2 x\<rfloor> \<le> \<lfloor>log 2 y\<rfloor>"
    using assms by (intro floor_mono) simp
  show ?thesis
  proof (cases "\<lfloor>log 2 x\<rfloor> = \<lfloor>log 2 y\<rfloor>")
    case True
    define u :: real where "u = 2 powr of_int (\<lfloor>log 2 x\<rfloor> - 52)"
    have upos: "0 < u" by (simp add: u_def)
    have dx: "dbl_round x = of_int (rne (x / u)) * u"
      using assms by (simp add: dbl_round_def Let_def u_def)
    have dy: "dbl_round y = of_int (rne (y / u)) * u"
      using ypos True by (simp add: dbl_round_def Let_def u_def)
    from assms upos have "x / u \<le> y / u" by (simp add: divide_right_mono)
    then have "rne (x / u) \<le> rne (y / u)" by (rule rne_mono)
    then have "(of_int (rne (x / u)) :: real) \<le> of_int (rne (y / u))" by simp
    with upos show ?thesis by (simp add: dx dy)
  next
    case False
    with le have "\<lfloor>log 2 x\<rfloor> + 1 \<le> \<lfloor>log 2 y\<rfloor>" by simp
    then have "2 powr of_int (\<lfloor>log 2 x\<rfloor> + 1) \<le> (2::real) powr of_int \<lfloor>log 2 y\<rfloor>"
      by (intro powr_mono) simp_all
    with dbl_round_binade(2) [OF assms(1)] dbl_round_binade(1) [OF ypos]
    show ?thesis by linarith
  qed
qed

lemma dbl_round_mono:
  assumes "x \<le> y"
  shows "dbl_round x \<le> dbl_round y"
proof -
  consider (pos) "0 < x" | (zero) "x = 0" | (neg) "x < 0" by linarith
  then show ?thesis
  proof cases
    case pos
    then show ?thesis using assms by (rule dbl_round_mono_pos)
  next
    case zero
    with assms have "y = 0 \<or> 0 < y" by linarith
    with zero show ?thesis using dbl_round_pos [of y] by (auto simp: dbl_round_0)
  next
    case neg
    then have nx: "dbl_round x < 0"
      using dbl_round_pos [of "- x"] by (simp add: dbl_round_minus)
    consider (ypos) "0 < y" | (yzero) "y = 0" | (yneg) "y < 0" by linarith
    then show ?thesis
    proof cases
      case ypos
      with nx dbl_round_pos [of y] show ?thesis by linarith
    next
      case yzero
      with nx show ?thesis by (simp add: dbl_round_0)
    next
      case yneg
      then have "dbl_round (- y) \<le> dbl_round (- x)"
        using assms by (intro dbl_round_mono_pos) simp_all
      then show ?thesis by (simp add: dbl_round_minus)
    qed
  qed
qed

lemma dbl_round_nonneg: "0 \<le> x \<Longrightarrow> 0 \<le> dbl_round x"
  using dbl_round_mono [of 0 x] by (simp add: dbl_round_0)

text \<open>Evaluation below \<open>2 ^ 53\<close>: scale by \<open>2 ^ k\<close> into the 53-bit integers.\<close>

lemma dbl_round_scaled:
  assumes lo: "2 ^ 52 \<le> \<bar>x\<bar> * 2 ^ k" and hi: "\<bar>x\<bar> * 2 ^ k < 2 ^ 53"
  shows "dbl_round x = sgn x * (of_int (rne (\<bar>x\<bar> * 2 ^ k)) / 2 ^ k)"
proof -
  from lo have nz: "x \<noteq> 0" by auto
  then have pos: "0 < \<bar>x\<bar>" by simp
  have p: "(2::real) powr (52 - real k) = 2 ^ 52 / 2 ^ k"
    by (simp add: powr_diff powr_realpow)
  have q: "(2::real) powr (53 - real k) = 2 ^ 53 / 2 ^ k"
    by (simp add: powr_diff powr_realpow)
  have "\<lfloor>log 2 \<bar>x\<bar>\<rfloor> = 52 - int k"
  proof -
    have "2 powr of_int (52 - int k) \<le> \<bar>x\<bar>"
      using lo by (simp add: p divide_le_eq)
    moreover have "\<bar>x\<bar> < 2 powr of_int (52 - int k + 1)"
      using hi q by (simp add: less_divide_eq algebra_simps)
    ultimately show ?thesis
      using floor_log_eq_powr_iff [of "\<bar>x\<bar>" 2 "52 - int k"] pos by simp
  qed
  then have u: "2 powr of_int (\<lfloor>log 2 \<bar>x\<bar>\<rfloor> - 52) = 1 / (2::real) ^ k"
    by (simp add: powr_minus_divide powr_realpow)
  show ?thesis
    unfolding dbl_round_def Let_def u using nz by simp
qed

lemma dbl_1e_6_eq: "dbl_1e_6 = 4722366482869645 / 2 ^ 72"
  unfolding dbl_1e_6_def
  by (subst dbl_round_scaled [where k = 72]) (simp_all add: rne_def Let_def)


lemma scale_exists:
  fixes m :: nat
  assumes "0 < m" and "m < 2 ^ 53"
  shows "\<exists>k. 2 ^ 52 \<le> m * 2 ^ k \<and> m * 2 ^ k < 2 ^ 53"
  using assms
proof (induction "2 ^ 53 - m" arbitrary: m rule: less_induct)
  case less
  show ?case
  proof (cases "2 ^ 52 \<le> m")
    case True
    with less.prems have "2 ^ 52 \<le> m * 2 ^ 0 \<and> m * 2 ^ 0 < 2 ^ 53" by simp
    then show ?thesis by blast
  next
    case False
    then have small: "2 * m < 2 ^ 53" by simp
    with less.prems have "2 ^ 53 - 2 * m < 2 ^ 53 - m" by simp
    from less.hyps [OF this] less.prems small
    obtain k where "2 ^ 52 \<le> 2 * m * 2 ^ k \<and> 2 * m * 2 ^ k < 2 ^ 53" by auto
    then have "2 ^ 52 \<le> m * 2 ^ Suc k \<and> m * 2 ^ Suc k < 2 ^ 53"
      by (simp add: mult.commute mult.left_commute)
    then show ?thesis by blast
  qed
qed

text \<open>An integer below \<open>2 ^ 53\<close> is a double.\<close>

lemma dbl_round_of_int:
  assumes "\<bar>n\<bar> < 2 ^ 53"
  shows "dbl_round (of_int n) = of_int n"
proof (cases "n = 0")
  case True
  then show ?thesis by (simp add: dbl_round_0)
next
  case False
  define m where "m = nat \<bar>n\<bar>"
  from False assms have "0 < m" "m < 2 ^ 53"
    by (simp_all add: m_def nat_less_iff)
  from scale_exists [OF this] obtain k where k: "2 ^ 52 \<le> m * 2 ^ k" "m * 2 ^ k < 2 ^ 53"
    by blast
  have ax: "\<bar>real_of_int n\<bar> * 2 ^ k = of_int (\<bar>n\<bar> * 2 ^ k)"
    by simp
  have mk: "real (m * 2 ^ k) = \<bar>real_of_int n\<bar> * 2 ^ k"
    by (simp add: m_def)
  from k(1) have "real (2 ^ 52) \<le> real (m * 2 ^ k)" by (rule of_nat_mono)
  then have lo: "2 ^ 52 \<le> \<bar>real_of_int n\<bar> * 2 ^ k"
    by (simp only: mk) simp
  from k(2) have "real (m * 2 ^ k) < real (2 ^ 53)" by (simp only: of_nat_less_iff)
  then have hi: "\<bar>real_of_int n\<bar> * 2 ^ k < 2 ^ 53"
    by (simp only: mk) simp
  have "dbl_round (of_int n) =
          sgn (real_of_int n) * (of_int (rne (of_int (\<bar>n\<bar> * 2 ^ k))) / 2 ^ k)"
    using dbl_round_scaled [OF lo hi] by (simp only: ax)
  also have "\<dots> = sgn (real_of_int n) * (of_int (\<bar>n\<bar> * 2 ^ k) / 2 ^ k)"
    by (simp only: rne_of_int)
  also have "\<dots> = sgn (real_of_int n) * \<bar>real_of_int n\<bar>"
    by simp
  also have "\<dots> = of_int n"
    by (simp add: sgn_mult_abs)
  finally show ?thesis .
qed

lemma dbl_round_numeral:
  "numeral w < (2 ^ 53 :: int) \<Longrightarrow> dbl_round (numeral w) = numeral w"
  using dbl_round_of_int [of "numeral w"] by simp

lemma ms_of_ns_mono: "x \<le> y \<Longrightarrow> ms_of_ns x \<le> ms_of_ns y"
  unfolding ms_of_ns_def
  by (intro dbl_round_mono mult_right_mono)
    (simp_all add: dbl_1e_6_eq)

lemma ms_of_ns_0: "ms_of_ns 0 = 0"
  by (simp add: ms_of_ns_def dbl_round_0)

text \<open>The times of the examples, from nanoseconds to milliseconds.\<close>

lemma ms_of_ns_small:
  "\<bar>t\<bar> < 2 ^ 53 \<Longrightarrow> ms_of_ns t = dbl_round (real_of_int t * (4722366482869645 / 2 ^ 72))"
  by (simp add: ms_of_ns_def dbl_round_of_int dbl_1e_6_eq)

lemma ms_of_ns_5000000: "ms_of_ns 5000000 = 5"
  by (subst ms_of_ns_small, simp, subst dbl_round_scaled [where k = 50])
    (simp_all add: rne_def Let_def)

lemma ms_of_ns_6000000: "ms_of_ns 6000000 = 6"
  by (subst ms_of_ns_small, simp, subst dbl_round_scaled [where k = 50])
    (simp_all add: rne_def Let_def)

lemma ms_of_ns_1001000000: "ms_of_ns 1001000000 = 1001"
  by (subst ms_of_ns_small, simp, subst dbl_round_scaled [where k = 43])
    (simp_all add: rne_def Let_def)

lemma ms_of_ns_2000000000: "ms_of_ns 2000000000 = 2000"
  by (subst ms_of_ns_small, simp, subst dbl_round_scaled [where k = 42])
    (simp_all add: rne_def Let_def)

lemma ms_of_ns_60000000000: "ms_of_ns 60000000000 = 60000"
  by (subst ms_of_ns_small, simp, subst dbl_round_scaled [where k = 37])
    (simp_all add: rne_def Let_def)

lemma ms_of_ns_222384631399: "ms_of_ns 222384631399 = 7641077751933757 / 2 ^ 35"
  by (subst ms_of_ns_small, simp, subst dbl_round_scaled [where k = 35])
    (simp_all add: rne_def Let_def)

lemma ms_of_ns_282384631399: "ms_of_ns 282384631399 = 4851331027006879 / 2 ^ 34"
  by (subst ms_of_ns_small, simp, subst dbl_round_scaled [where k = 34])
    (simp_all add: rne_def Let_def)

lemma delay_60000_plus:
  "dbl_round (ms_of_ns 282384631399 - ms_of_ns 222384631399) = 60000 + 1 / 2 ^ 35"
  by (simp only: ms_of_ns_222384631399 ms_of_ns_282384631399,
      subst dbl_round_scaled [where k = 37])
    (simp_all add: rne_def Let_def)

lemma ms_of_ns_24007000: "ms_of_ns 24007000 = 3378684882946359 / 2 ^ 47"
  by (subst ms_of_ns_small, simp, subst dbl_round_scaled [where k = 48])
    (simp_all add: rne_def Let_def)

lemma ms_of_ns_1024007000: "ms_of_ns 1024007000 = 2251815206848037 / 2 ^ 41"
  by (subst ms_of_ns_small, simp, subst dbl_round_scaled [where k = 42])
    (simp_all add: rne_def Let_def)

lemma delay_1000_plus:
  "dbl_round (ms_of_ns 1024007000 - ms_of_ns 24007000) = 1000 + 1 / 2 ^ 43"
  by (simp only: ms_of_ns_24007000 ms_of_ns_1024007000, subst dbl_round_scaled [where k = 43])
    (simp_all add: rne_def Let_def)

lemmas ms_evals =
  ms_of_ns_0 ms_of_ns_5000000 ms_of_ns_6000000 ms_of_ns_1001000000 ms_of_ns_2000000000
  ms_of_ns_60000000000 dbl_round_numeral dbl_round_0

section \<open>Basic facts\<close>

lemma pktId_pkt_imr [simp]: "pktId pkt_imr = 5"
  by (simp add: pktId_def pkt_imr_def)

lemma pktId_pkt_pcc [simp]: "pktId pkt_pcc = 6"
  by (simp add: pktId_def pkt_pcc_def)

lemma unat_m1: "unat (- 1 :: 32 word) = 4294967295"
  by (simp add: unsigned_minus_1_eq_mask mask_eq_exp_minus_1)

lemma Sent_imr:
  "Sent (init_state []) pkt_imr 3 0 =
     (init_state [])\<lparr>pktInfoMap := [5 \<mapsto> mkPacketInfo 5 3 0], nImrSent := 1, nSent := 1,
                      nSentPerHour := 1\<rparr>"
  by (simp add: Sent_def init_state_def ms_evals Let_def pkt_imr_def pktId_def
      mkPacketInfo_def)

lemma replicate_6: "replicate 6 (0::int) = [0, 0, 0, 0, 0, 0]"
  by (simp add: numeral_eq_Suc)

lemma vec_add_Inr:
  "vec_add v i d = Inr v' \<longleftrightarrow> 0 \<le> i \<and> i < int (length v) \<and> v' = v[nat i := v ! nat i + d]"
  by (auto simp: vec_add_def)

lemma vec_add_Inl:
  "vec_add v i d = Inl OutOfBounds \<longleftrightarrow> \<not> (0 \<le> i \<and> i < int (length v))"
  by (auto simp: vec_add_def)

lemma Under_Inr:
  assumes "Under s pkt gwId = Inr s'"
  shows "pktInfoMap s' = pktInfoMap s \<and> nLost s' = nLost s + 1 \<and> nUnder s' = nUnder s + 1 \<and>
      7 \<le> uint (spreadingFactor pkt) \<and> uint (spreadingFactor pkt) - 7 < int (length (underPerSf s)) \<and>
      underPerSf s' = (underPerSf s)[nat (uint (spreadingFactor pkt) - 7) :=
                          underPerSf s ! nat (uint (spreadingFactor pkt) - 7) + 1]"
proof -
  obtain v where v: "vec_add (underPerSf s) (GetIndexBasedOnSf pkt) 1 = Inr v"
    and s': "s' = (ComputeLqi (s\<lparr>nUnder := nUnder s + 1, nLost := nLost s + 1\<rparr>) pkt)
                    \<lparr>underPkts := underPkts s @ [uid pkt], underPerSf := v\<rparr>"
    using assms by (simp add: Under_def Let_def ComputeLqi_def split: sum.splits)
  from v show ?thesis
    by (simp add: s' ComputeLqi_def vec_add_Inr GetIndexBasedOnSf_def)
qed

lemma NoMore_Inr:
  assumes "NoMore s pkt gwId = Inr s'"
  shows "pktInfoMap s' = pktInfoMap s \<and> nLost s' = nLost s + 1 \<and> nNoMore s' = nNoMore s + 1 \<and>
      7 \<le> uint (spreadingFactor pkt) \<and> uint (spreadingFactor pkt) - 7 < int (length (noMorePerSf s)) \<and>
      noMorePerSf s' = (noMorePerSf s)[nat (uint (spreadingFactor pkt) - 7) :=
                          noMorePerSf s ! nat (uint (spreadingFactor pkt) - 7) + 1]"
proof -
  obtain v where v: "vec_add (noMorePerSf s) (GetIndexBasedOnSf pkt) 1 = Inr v"
    and s': "s' = (ComputeLqi (s\<lparr>nNoMore := nNoMore s + 1, nLost := nLost s + 1\<rparr>) pkt)
                    \<lparr>noMorePkts := noMorePkts s @ [uid pkt], noMorePerSf := v\<rparr>"
    using assms by (simp add: NoMore_def Let_def ComputeLqi_def split: sum.splits)
  from v show ?thesis
    by (simp add: s' ComputeLqi_def vec_add_Inr GetIndexBasedOnSf_def)
qed

lemma Busy_Inr:
  assumes "Busy s pkt gwId = Inr s'"
  shows "pktInfoMap s' = pktInfoMap s \<and> nLost s' = nLost s + 1 \<and> nBusy s' = nBusy s + 1 \<and>
      7 \<le> uint (spreadingFactor pkt) \<and> uint (spreadingFactor pkt) - 7 < int (length (busyPerSf s)) \<and>
      busyPerSf s' = (busyPerSf s)[nat (uint (spreadingFactor pkt) - 7) :=
                          busyPerSf s ! nat (uint (spreadingFactor pkt) - 7) + 1]"
proof -
  obtain v where v: "vec_add (busyPerSf s) (GetIndexBasedOnSf pkt) 1 = Inr v"
    and s': "s' = (ComputeLqi (s\<lparr>nBusy := nBusy s + 1, nLost := nLost s + 1\<rparr>) pkt)
                    \<lparr>busyPkts := busyPkts s @ [uid pkt], busyPerSf := v\<rparr>"
    using assms by (simp add: Busy_def Let_def ComputeLqi_def split: sum.splits)
  from v show ?thesis
    by (simp add: s' ComputeLqi_def vec_add_Inr GetIndexBasedOnSf_def)
qed

lemma Interf_Inr:
  assumes "Interf cfg s pkt gwId = Inr s'"
  shows "pktInfoMap s' = pktInfoMap s \<and> nLost s' = nLost s + 1 \<and> nInterf s' = nInterf s + 1 \<and>
      7 \<le> uint (spreadingFactor pkt) \<and> uint (spreadingFactor pkt) - 7 < int (length (interfPerSf s)) \<and>
      interfPerSf s' = (interfPerSf s)[nat (uint (spreadingFactor pkt) - 7) :=
                          interfPerSf s ! nat (uint (spreadingFactor pkt) - 7) + 1]"
proof -
  from assms obtain v where v: "vec_add (interfPerSf s) (uint (spreadingFactor pkt) - 7) 1 = Inr v"
    by (cases "vec_add (interfPerSf s) (uint (spreadingFactor pkt) - 7) 1")
      (simp_all add: Interf_def Let_def ComputeLqi_def)
  define s3 where "s3 = (ComputeLqi (s\<lparr>nInterf := nInterf s + 1, nLost := nLost s + 1\<rparr>) pkt)
                 \<lparr>interfPerSf := v, interfPkts := interfPkts s @ [uid pkt]\<rparr>"
  have "Interf cfg s pkt gwId =
          (if sfa cfg = ''asfa'' then
             if unat (GetEdId s3 pkt) < length (endDevices s3) then
               Inr (s3\<lparr>endDevices := (endDevices s3)[unat (GetEdId s3 pkt) :=
                      (if 12 - spreadingFactor pkt > 0 then 12 - spreadingFactor pkt - 1 else 0)]\<rparr>)
             else Inl OutOfBounds
           else Inr s3)"
    using v by (simp add: Interf_def Let_def s3_def ComputeLqi_def)
  with assms have "(\<exists>d. s' = s3\<lparr>endDevices := d\<rparr>) \<or> s' = s3"
    by (auto split: if_splits)
  then have "pktInfoMap s' = pktInfoMap s3 \<and> nLost s' = nLost s3 \<and> nInterf s' = nInterf s3 \<and>
      interfPerSf s' = interfPerSf s3"
    by auto
  with v show ?thesis
    by (simp add: s3_def ComputeLqi_def vec_add_Inr)
qed

section \<open>Send events\<close>

text \<open>
  Claim C7. A send event for a packet id without record inserts a record with status
  \<open>SENT\<close> and adds one to \<open>nSent\<close>, to the per-window counter \<open>nSentPerHour\<close>
  and to the sent counter of the packet's class; nothing else changes. A send event for an
  id that has a record adds one to the retransmission counter \<open>nRetx\<close> and changes
  nothing else: no record is created or altered, no sent counter moves.
\<close>

theorem Sent_new_or_retransmission:
  "(pktInfoMap s (pktId pkt) = None \<longrightarrow>
      Sent s pkt edId now =
        s\<lparr>pktInfoMap := (pktInfoMap s)(pktId pkt \<mapsto>
             \<lparr>m_pktId = pktId pkt, m_edId = edId, m_txTime = ms_of_ns now,
              m_delay = - 1, m_cpsrDelay = - 1, m_status = SENT\<rparr>),
          nSent := nSent s + 1,
          nSentPerHour := nSentPerHour s + 1,
          nImrSent := nImrSent s + (if msgType pkt = IMR then 1 else 0),
          nPccSent := nPccSent s + (if msgType pkt = PCC then 1 else 0)\<rparr>) \<and>
   (pktInfoMap s (pktId pkt) \<noteq> None \<longrightarrow>
      Sent s pkt edId now = s\<lparr>nRetx := nRetx s + 1\<rparr>)"
  by (cases "msgType pkt") (auto simp: Sent_def mkPacketInfo_def Let_def)

text \<open>A first send of packet 5 from the initial state, then a second send of it.\<close>

theorem Sent_new_or_retransmission_witness:
  "pktInfoMap (init_state []) (pktId pkt_imr) = None \<and>
   nSent (Sent (init_state []) pkt_imr 3 0) = 1 \<and>
   nImrSent (Sent (init_state []) pkt_imr 3 0) = 1 \<and>
   nPccSent (Sent (init_state []) pkt_imr 3 0) = 0 \<and>
   nSentPerHour (Sent (init_state []) pkt_imr 3 0) = 1 \<and>
   pktInfoMap (Sent (init_state []) pkt_imr 3 0) (pktId pkt_imr) \<noteq> None \<and>
   Sent (Sent (init_state []) pkt_imr 3 0) pkt_imr 3 7 =
     (Sent (init_state []) pkt_imr 3 0)\<lparr>nRetx := 1\<rparr>"
  using Sent_new_or_retransmission [of "init_state []" pkt_imr 3 0]
    Sent_new_or_retransmission [of "Sent (init_state []) pkt_imr 3 0" pkt_imr 3 7]
  by (simp add: init_state_def pkt_imr_def)

section \<open>The hourly sample\<close>

text \<open>
  Claim C8. A tick of the sampler appends one sample to \<open>pdrsPerHourVec\<close>: the
  percentage of the window's received among the window's sent packets, zero when nothing
  was sent in the window, and never more than 100. It sets the two window counters to
  zero, and every other variable keeps its value.
\<close>

theorem CalcPdrsPerHour_sample_and_frame:
  "(let s' = CalcPdrsPerHour s;
        ratio = (if nSentPerHour s > 0
                 then real_of_int (nRecPerHour s) / real_of_int (nSentPerHour s) * 100
                 else 0)
    in pdrsPerHourVec s' = pdrsPerHourVec s @ [min ratio 100] \<and>
       last (pdrsPerHourVec s') \<le> 100 \<and>
       nSentPerHour s' = 0 \<and>
       nRecPerHour s' = 0 \<and>
       s'\<lparr>pdrsPerHourVec := pdrsPerHourVec s,
          nSentPerHour := nSentPerHour s,
          nRecPerHour := nRecPerHour s\<rparr> = s)"
  by (simp add: CalcPdrsPerHour_def Let_def min_def)

text \<open>Two windows, with 99 of 100 and 50 of 50 packets received.\<close>

theorem CalcPdrsPerHour_sample_and_frame_witness:
  "pdrsPerHourVec (CalcPdrsPerHour
      ((CalcPdrsPerHour ((init_state [])\<lparr>nSentPerHour := 100, nRecPerHour := 99\<rparr>))
         \<lparr>nSentPerHour := 50, nRecPerHour := 50\<rparr>)) = [99, 100]"
  using CalcPdrsPerHour_sample_and_frame
      [of "(init_state [])\<lparr>nSentPerHour := 100, nRecPerHour := 99\<rparr>"]
    CalcPdrsPerHour_sample_and_frame
      [of "(CalcPdrsPerHour ((init_state [])\<lparr>nSentPerHour := 100, nRecPerHour := 99\<rparr>))
             \<lparr>nSentPerHour := 50, nRecPerHour := 50\<rparr>"]
  by (simp add: Let_def init_state_def)

section \<open>Clearing the data\<close>

text \<open>
  Claim C9, as amended. \<open>ClearData\<close> empties the ledger and every vector: the
  per-spreading-factor counters, the window samples, the per-class delay sums and the
  lists of packet ids. The scalar counters and sums, and the end devices, keep the values
  they had.
\<close>

theorem ClearData_clears_containers_only:
  "(let s' = ClearData s in
    pktInfoMap s' = Map.empty \<and>
    sfDist s' = [] \<and> pdrsPerHourVec s' = [] \<and> delayPerApp s' = [] \<and>
    interfPerSf s' = [] \<and> underPerSf s' = [] \<and> expPerSf s' = [] \<and>
    noMorePerSf s' = [] \<and> busyPerSf s' = [] \<and>
    expiredPkts s' = [] \<and> interfPkts s' = [] \<and> underPkts s' = [] \<and>
    busyPkts s' = [] \<and> noMorePkts s' = [] \<and> okPkts s' = [] \<and>
    nSent s' = nSent s \<and> nRec s' = nRec s \<and> nRetx s' = nRetx s \<and>
    nReqTx s' = nReqTx s \<and> nRecAck s' = nRecAck s \<and>
    sumDelay s' = sumDelay s \<and> sumRssi s' = sumRssi s \<and>
    sumPktsRssi s' = sumPktsRssi s \<and> sumSnr s' = sumSnr s \<and>
    sumPktsSnr s' = sumPktsSnr s \<and> consumption s' = consumption s \<and>
    nTotalPkts s' = nTotalPkts s \<and> nLost s' = nLost s \<and> nInterf s' = nInterf s \<and>
    nUnder s' = nUnder s \<and> nBusy s' = nBusy s \<and> nNoMore s' = nNoMore s \<and>
    nExpired s' = nExpired s \<and> nSentPerHour s' = nSentPerHour s \<and>
    nRecPerHour s' = nRecPerHour s \<and> nImrSent s' = nImrSent s \<and>
    nPccSent s' = nPccSent s \<and> nImrRec s' = nImrRec s \<and> nPccRec s' = nPccRec s \<and>
    endDevices s' = endDevices s)"
  by (simp add: ClearData_def Let_def)

text \<open>
  The claim as written asks for all counters to be zero after the reset. After one send,
  \<open>ClearData\<close> leaves \<open>nSent\<close> at one.
\<close>

theorem ClearData_keeps_counters_counterexample:
  "nSent (ClearData (Sent (init_state []) pkt_imr 3 0)) = 1"
  by (simp add: ClearData_def Sent_def init_state_def pkt_imr_def pktId_def Let_def)

section \<open>Loss events\<close>

text \<open>
  Claim C4, as amended. Each of the four loss callbacks (interference, under sensitivity,
  no more receivers, gateway transmitting), when it returns, leaves the ledger as it was,
  whatever the ledger holds for the packet: no record is marked with a loss cause. It adds
  one to \<open>nLost\<close>, one to the counter of its cause, and one to the bucket
  \<open>sf - 7\<close> of its per-spreading-factor vector, an index that lies inside the vector.
\<close>

theorem loss_events_count_and_leave_ledger:
  "(Interf cfg s pkt gwId = Inr s1 \<longrightarrow>
      pktInfoMap s1 = pktInfoMap s \<and> nLost s1 = nLost s + 1 \<and> nInterf s1 = nInterf s + 1 \<and>
      7 \<le> uint (spreadingFactor pkt) \<and>
      uint (spreadingFactor pkt) - 7 < int (length (interfPerSf s)) \<and>
      interfPerSf s1 = (interfPerSf s)[nat (uint (spreadingFactor pkt) - 7) :=
                          interfPerSf s ! nat (uint (spreadingFactor pkt) - 7) + 1]) \<and>
   (Under s pkt gwId = Inr s2 \<longrightarrow>
      pktInfoMap s2 = pktInfoMap s \<and> nLost s2 = nLost s + 1 \<and> nUnder s2 = nUnder s + 1 \<and>
      7 \<le> uint (spreadingFactor pkt) \<and>
      uint (spreadingFactor pkt) - 7 < int (length (underPerSf s)) \<and>
      underPerSf s2 = (underPerSf s)[nat (uint (spreadingFactor pkt) - 7) :=
                          underPerSf s ! nat (uint (spreadingFactor pkt) - 7) + 1]) \<and>
   (NoMore s pkt gwId = Inr s3 \<longrightarrow>
      pktInfoMap s3 = pktInfoMap s \<and> nLost s3 = nLost s + 1 \<and> nNoMore s3 = nNoMore s + 1 \<and>
      7 \<le> uint (spreadingFactor pkt) \<and>
      uint (spreadingFactor pkt) - 7 < int (length (noMorePerSf s)) \<and>
      noMorePerSf s3 = (noMorePerSf s)[nat (uint (spreadingFactor pkt) - 7) :=
                          noMorePerSf s ! nat (uint (spreadingFactor pkt) - 7) + 1]) \<and>
   (Busy s pkt gwId = Inr s4 \<longrightarrow>
      pktInfoMap s4 = pktInfoMap s \<and> nLost s4 = nLost s + 1 \<and> nBusy s4 = nBusy s + 1 \<and>
      7 \<le> uint (spreadingFactor pkt) \<and>
      uint (spreadingFactor pkt) - 7 < int (length (busyPerSf s)) \<and>
      busyPerSf s4 = (busyPerSf s)[nat (uint (spreadingFactor pkt) - 7) :=
                          busyPerSf s ! nat (uint (spreadingFactor pkt) - 7) + 1])"
  using Interf_Inr [of cfg s pkt gwId s1] Under_Inr [of s pkt gwId s2]
    NoMore_Inr [of s pkt gwId s3] Busy_Inr [of s pkt gwId s4]
  by blast

text \<open>
  Interference on the tracked packet 5 (spreading factor 9), and the three other losses
  from the initial state.
\<close>

theorem loss_events_count_and_leave_ledger_witness:
  "Interf cfg_default (Sent (init_state []) pkt_imr 3 0) pkt_imr 0 =
     Inr (projr (Interf cfg_default (Sent (init_state []) pkt_imr 3 0) pkt_imr 0)) \<and>
   status_of 5 (projr (Interf cfg_default (Sent (init_state []) pkt_imr 3 0) pkt_imr 0)) = Some SENT \<and>
   nInterf (projr (Interf cfg_default (Sent (init_state []) pkt_imr 3 0) pkt_imr 0)) = 1 \<and>
   interfPerSf (projr (Interf cfg_default (Sent (init_state []) pkt_imr 3 0) pkt_imr 0)) = [0, 0, 1, 0, 0, 0] \<and>
   Under (init_state []) pkt_imr 0 = Inr (projr (Under (init_state []) pkt_imr 0)) \<and>
   nUnder (projr (Under (init_state []) pkt_imr 0)) = 1 \<and>
   underPerSf (projr (Under (init_state []) pkt_imr 0)) = [0, 0, 1, 0, 0, 0] \<and>
   NoMore (init_state []) pkt_pcc 0 = Inr (projr (NoMore (init_state []) pkt_pcc 0)) \<and>
   nNoMore (projr (NoMore (init_state []) pkt_pcc 0)) = 1 \<and>
   noMorePerSf (projr (NoMore (init_state []) pkt_pcc 0)) = [0, 0, 0, 0, 0, 1] \<and>
   Busy (init_state []) pkt_pcc 0 = Inr (projr (Busy (init_state []) pkt_pcc 0)) \<and>
   nBusy (projr (Busy (init_state []) pkt_pcc 0)) = 1 \<and>
   nLost (projr (Busy (init_state []) pkt_pcc 0)) = 1 \<and>
   busyPerSf (projr (Busy (init_state []) pkt_pcc 0)) = [0, 0, 0, 0, 0, 1]"
proof -
  have i: "Interf cfg_default (Sent (init_state []) pkt_imr 3 0) pkt_imr 0 =
     Inr (projr (Interf cfg_default (Sent (init_state []) pkt_imr 3 0) pkt_imr 0))"
    by (simp add: Interf_def Sent_imr cfg_default_def ComputeLqi_def vec_add_def Let_def)
      (simp add: init_state_def pkt_imr_def)
  have u: "Under (init_state []) pkt_imr 0 = Inr (projr (Under (init_state []) pkt_imr 0))"
    by (simp add: Under_def ComputeLqi_def vec_add_def Let_def GetIndexBasedOnSf_def)
      (simp add: init_state_def pkt_imr_def)
  have n: "NoMore (init_state []) pkt_pcc 0 = Inr (projr (NoMore (init_state []) pkt_pcc 0))"
    by (simp add: NoMore_def ComputeLqi_def vec_add_def Let_def GetIndexBasedOnSf_def)
      (simp add: init_state_def pkt_pcc_def)
  have b: "Busy (init_state []) pkt_pcc 0 = Inr (projr (Busy (init_state []) pkt_pcc 0))"
    by (simp add: Busy_def ComputeLqi_def vec_add_def Let_def GetIndexBasedOnSf_def)
      (simp add: init_state_def pkt_pcc_def)
  have st: "pktInfoMap (Sent (init_state []) pkt_imr 3 0) 5 = Some (mkPacketInfo 5 3 0)"
    by (simp add: Sent_imr)
  have l: "interfPerSf (Sent (init_state []) pkt_imr 3 0) = [0, 0, 0, 0, 0, 0]"
      "underPerSf (init_state []) = [0, 0, 0, 0, 0, 0]"
      "noMorePerSf (init_state []) = [0, 0, 0, 0, 0, 0]"
      "busyPerSf (init_state []) = [0, 0, 0, 0, 0, 0]"
      "nInterf (Sent (init_state []) pkt_imr 3 0) = 0" "nUnder (init_state []) = 0"
      "nNoMore (init_state []) = 0" "nBusy (init_state []) = 0" "nLost (init_state []) = 0"
    by (simp_all add: Sent_imr) (simp_all add: init_state_def numeral_eq_Suc)
  have sf: "spreadingFactor pkt_imr = 9" "spreadingFactor pkt_pcc = 12"
    by (simp_all add: pkt_imr_def pkt_pcc_def)
  show ?thesis
    using i u n b
      loss_events_count_and_leave_ledger [of cfg_default "Sent (init_state []) pkt_imr 3 0" pkt_imr 0
        "projr (Interf cfg_default (Sent (init_state []) pkt_imr 3 0) pkt_imr 0)"
        "projr (Under (Sent (init_state []) pkt_imr 3 0) pkt_imr 0)"
        "projr (NoMore (Sent (init_state []) pkt_imr 3 0) pkt_imr 0)"
        "projr (Busy (Sent (init_state []) pkt_imr 3 0) pkt_imr 0)"]
      loss_events_count_and_leave_ledger [of cfg_default "init_state []" pkt_imr 0
        "projr (Interf cfg_default (init_state []) pkt_imr 0)"
        "projr (Under (init_state []) pkt_imr 0)"
        "projr (NoMore (init_state []) pkt_imr 0)"
        "projr (Busy (init_state []) pkt_imr 0)"]
      loss_events_count_and_leave_ledger [of cfg_default "init_state []" pkt_pcc 0
        "projr (Interf cfg_default (init_state []) pkt_pcc 0)"
        "projr (Under (init_state []) pkt_pcc 0)"
        "projr (NoMore (init_state []) pkt_pcc 0)"
        "projr (Busy (init_state []) pkt_pcc 0)"]
    by (simp add: status_of_def st l sf mkPacketInfo_def)
qed

text \<open>
  The claim as written has a loss event mark a record that is still \<open>SENT\<close>. After
  a send and an interference loss of packet 5 the record is still \<open>SENT\<close>.
\<close>

theorem loss_event_leaves_record_Sent_counterexample:
  "map_sum id (status_of 5)
     (run cfg_default (init_state []) [EvSent pkt_imr 3 0, EvInterf pkt_imr 0]) = Inr (Some SENT)"
  by (simp add: Interf_def Sent_def init_state_def cfg_default_def ComputeLqi_def vec_add_def
      Let_def mkPacketInfo_def pkt_imr_def pktId_def status_of_def)

section \<open>Deliveries of packets that were never sent\<close>

text \<open>
  Claim C5, as amended. A delivery event for a packet id without record changes nothing at
  all: the ledger, the classification counters and also the sums over all observed packets
  \<open>sumPktsRssi\<close>, \<open>sumPktsSnr\<close> and \<open>nTotalPkts\<close> keep their values.
\<close>

theorem Ok_untracked_changes_nothing:
  "pktInfoMap s (pktId pkt) = None \<Longrightarrow> Ok s pkt gwId now = Inr s"
  by (simp add: Ok_def)

theorem Ok_untracked_changes_nothing_witness:
  "pktInfoMap (init_state []) (pktId pkt_imr) = None \<and>
   Ok (init_state []) pkt_imr 0 1000 = Inr (init_state [])"
  using Ok_untracked_changes_nothing [of "init_state []" pkt_imr 0 1000]
  by (simp add: init_state_def)

text \<open>
  The claim as written has the all-observed statistics grow on such an event. They stay
  at zero when the first event of a run is a delivery of the unknown packet 5.
\<close>

theorem Ok_untracked_not_observed_counterexample:
  "map_sum id nTotalPkts (Ok (init_state []) pkt_imr 0 1000) = Inr 0 \<and>
   map_sum id sumPktsRssi (Ok (init_state []) pkt_imr 0 1000) = Inr 0 \<and>
   map_sum id sumPktsSnr (Ok (init_state []) pkt_imr 0 1000) = Inr 0"
  by (simp add: Ok_def init_state_def)

section \<open>The end-device index of Interf\<close>

text \<open>
  Claim C10. With the allocation scheme \<open>asfa\<close>, an interference loss of a packet
  without record makes \<open>GetEdId\<close> return \<open>-1\<close>, which \<open>NodeContainer::Get\<close>
  takes as the index 4294967295: with 200 end devices the access is out of bounds.
\<close>

theorem Interf_asfa_untracked_out_of_bounds:
  "GetEdId (init_state (replicate 200 5)) pkt_imr = - 1 \<and>
   unat (GetEdId (init_state (replicate 200 5)) pkt_imr) = 4294967295 \<and>
   length (endDevices (init_state (replicate 200 5))) = 200 \<and>
   Interf (cfg_default\<lparr>sfa := ''asfa''\<rparr>) (init_state (replicate 200 5)) pkt_imr 0
     = Inl OutOfBounds"
  by (simp add: Interf_def GetEdId_def ComputeLqi_def vec_add_def init_state_def
      cfg_default_def Let_def pkt_imr_def pktId_def unat_m1)

section \<open>The deadline of a first delivery\<close>

text \<open>
  What a first delivery does to the fields that the classification touches. The
  comparison with the maximum of the packet's class is inclusive, on the delay that the
  handler computes: the time of the delivery in milliseconds minus the stored time of the
  send, rounded.
\<close>

lemma Ok_first_Inr:
  assumes rec: "pktInfoMap s (pktId pkt) = Some info" and first: "m_delay info = - 1"
    and ok: "Ok s pkt gwId now = Inr s'"
  shows "(if msgType pkt = IMR \<and> dbl_round (ms_of_ns now - m_txTime info) \<le> imrDelay \<or>
             msgType pkt = PCC \<and> dbl_round (ms_of_ns now - m_txTime info) \<le> pccDelay
          then status_of (pktId pkt) s' = Some OK \<and> nRec s' = nRec s + 1 \<and>
               nRecPerHour s' = nRecPerHour s + 1 \<and> nExpired s' = nExpired s \<and>
               nImrRec s' + nPccRec s' = nImrRec s + nPccRec s + 1
          else status_of (pktId pkt) s' = Some EXPIRED \<and> nRec s' = nRec s \<and>
               nRecPerHour s' = nRecPerHour s \<and> nExpired s' = nExpired s + 1 \<and>
               nImrRec s' = nImrRec s \<and> nPccRec s' = nPccRec s)"
proof -
  let ?d = "dbl_round (ms_of_ns now - m_txTime info)"
  consider (imr) "msgType pkt = IMR \<and> ?d \<le> imrDelay"
    | (pcc) "\<not> (msgType pkt = IMR \<and> ?d \<le> imrDelay)" "msgType pkt = PCC \<and> ?d \<le> pccDelay"
    | (late) "\<not> (msgType pkt = IMR \<and> ?d \<le> imrDelay)" "\<not> (msgType pkt = PCC \<and> ?d \<le> pccDelay)"
    by blast
  then show ?thesis
  proof cases
    case imr
    with ok show ?thesis
      by (auto simp: Ok_def rec first Let_def ComputeLqi_def status_of_def split: sum.splits)
  next
    case pcc
    with ok show ?thesis
      by (auto simp: Ok_def rec first Let_def ComputeLqi_def status_of_def split: sum.splits)
  next
    case late
    with ok show ?thesis
      by (auto simp: Ok_def rec first Let_def ComputeLqi_def status_of_def split: sum.splits)
  qed
qed

lemma Sent_pcc:
  "Sent (init_state []) pkt_pcc 3 0 =
     (init_state [])\<lparr>pktInfoMap := [6 \<mapsto> mkPacketInfo 6 3 0], nPccSent := 1, nSent := 1,
                      nSentPerHour := 1\<rparr>"
  by (simp add: Sent_def init_state_def ms_evals Let_def pkt_pcc_def pktId_def
      mkPacketInfo_def)

lemma Ok_pcc_1001:
  "Ok (Sent (init_state []) pkt_pcc 3 0) pkt_pcc 0 1001000000 =
     Inr (projr (Ok (Sent (init_state []) pkt_pcc 3 0) pkt_pcc 0 1001000000))"
  by (simp add: Ok_def Sent_pcc Let_def ComputeLqi_def mkPacketInfo_def ms_evals
      imrDelay_def pccDelay_def vec_add_def GetIndexBasedOnSf_def)
    (simp add: pkt_pcc_def init_state_def)

lemma Ok_imr_60000:
  "Ok (Sent (init_state []) pkt_imr 3 0) pkt_imr 0 60000000000 =
     Inr (projr (Ok (Sent (init_state []) pkt_imr 3 0) pkt_imr 0 60000000000))"
  by (simp add: Ok_def Sent_imr Let_def ComputeLqi_def mkPacketInfo_def ms_evals
      imrDelay_def pccDelay_def vec_add_def GetIndexBasedOnSf_def)
    (simp add: pkt_imr_def init_state_def)

text \<open>
  Packets sent at time 0, where no operation rounds: a PCC packet delivered after 1001 ms
  is expired, an IMR packet delivered after 60000 ms is on time.
\<close>

lemma Ok_deadline_sent_at_0:
  "ms_of_ns 1001000000 = 1001 \<and>
   status_of 6 (projr (Ok (Sent (init_state []) pkt_pcc 3 0) pkt_pcc 0 1001000000)) = Some EXPIRED \<and>
   nRec (projr (Ok (Sent (init_state []) pkt_pcc 3 0) pkt_pcc 0 1001000000)) = 0 \<and>
   nPccRec (projr (Ok (Sent (init_state []) pkt_pcc 3 0) pkt_pcc 0 1001000000)) = 0 \<and>
   nExpired (projr (Ok (Sent (init_state []) pkt_pcc 3 0) pkt_pcc 0 1001000000)) = 1 \<and>
   ms_of_ns 60000000000 = 60000 \<and>
   status_of 5 (projr (Ok (Sent (init_state []) pkt_imr 3 0) pkt_imr 0 60000000000)) = Some OK \<and>
   nRec (projr (Ok (Sent (init_state []) pkt_imr 3 0) pkt_imr 0 60000000000)) = 1 \<and>
   nExpired (projr (Ok (Sent (init_state []) pkt_imr 3 0) pkt_imr 0 60000000000)) = 0"
proof -
  have r: "pktInfoMap (Sent (init_state []) pkt_pcc 3 0) (pktId pkt_pcc) = Some (mkPacketInfo 6 3 0)"
      "pktInfoMap (Sent (init_state []) pkt_imr 3 0) (pktId pkt_imr) = Some (mkPacketInfo 5 3 0)"
    by (simp_all add: Sent_pcc Sent_imr)
  have d: "m_delay (mkPacketInfo 6 3 0) = - 1" "m_delay (mkPacketInfo 5 3 0) = - 1"
    by (simp_all add: mkPacketInfo_def)
  have c: "nRec (Sent (init_state []) pkt_pcc 3 0) = 0" "nExpired (Sent (init_state []) pkt_pcc 3 0) = 0"
      "nPccRec (Sent (init_state []) pkt_pcc 3 0) = 0"
      "nRec (Sent (init_state []) pkt_imr 3 0) = 0" "nExpired (Sent (init_state []) pkt_imr 3 0) = 0"
    by (simp_all add: Sent_pcc Sent_imr) (simp_all add: init_state_def)
  have m: "msgType pkt_pcc = PCC" "msgType pkt_imr = IMR"
    by (simp_all add: pkt_pcc_def pkt_imr_def)
  show ?thesis
    using Ok_first_Inr [OF r(1) d(1) Ok_pcc_1001] Ok_first_Inr [OF r(2) d(2) Ok_imr_60000]
    by (simp add: c m mkPacketInfo_def ms_evals imrDelay_def pccDelay_def)
qed

text \<open>
  Packets sent later. The handlers convert each time to milliseconds before they
  subtract, and both conversions round. An IMR packet sent at 222384631399 ns and
  delivered at 282384631399 ns, 60000 ms later to the nanosecond, gets the delay
  \<open>60000 + 1 / 2 ^ 35\<close>; a PCC packet sent at 24007000 ns and delivered at
  1024007000 ns, 1000 ms later, gets the delay \<open>1000 + 1 / 2 ^ 43\<close>.
\<close>

lemma Sent_imr_at:
  "Sent (init_state []) pkt_imr 3 t =
     (init_state [])\<lparr>pktInfoMap := [5 \<mapsto> mkPacketInfo 5 3 (ms_of_ns t)], nImrSent := 1,
                      nSent := 1, nSentPerHour := 1\<rparr>"
  by (simp add: Sent_def init_state_def Let_def pkt_imr_def pktId_def mkPacketInfo_def)

lemma Sent_pcc_at:
  "Sent (init_state []) pkt_pcc 3 t =
     (init_state [])\<lparr>pktInfoMap := [6 \<mapsto> mkPacketInfo 6 3 (ms_of_ns t)], nPccSent := 1,
                      nSent := 1, nSentPerHour := 1\<rparr>"
  by (simp add: Sent_def init_state_def Let_def pkt_pcc_def pktId_def mkPacketInfo_def)

lemma Ok_imr_at_deadline:
  "Ok (Sent (init_state []) pkt_imr 3 222384631399) pkt_imr 0 282384631399 =
   Inr ((init_state [])\<lparr>pktInfoMap :=
            [5 \<mapsto> (mkPacketInfo 5 3 (ms_of_ns 222384631399))
                      \<lparr>m_delay := 60000 + 1 / 2 ^ 35, m_status := EXPIRED\<rparr>],
          nImrSent := 1, nSent := 1, nSentPerHour := 1,
          sumPktsRssi := - 100, sumPktsSnr := RxPowerToSNR (- 100), nTotalPkts := 1,
          sumRssi := - 100, sumSnr := RxPowerToSNR (- 100), sumDelay := 60000 + 1 / 2 ^ 35,
          nExpired := 1, expiredPkts := [5], expPerSf := [0, 0, 1, 0, 0, 0]\<rparr>)"
  by (simp add: Ok_def Sent_imr_at Let_def ComputeLqi_def mkPacketInfo_def delay_60000_plus
      imrDelay_def pccDelay_def vec_add_def GetIndexBasedOnSf_def)
    (simp add: pkt_imr_def init_state_def replicate_6)

lemma Ok_pcc_at_deadline:
  "Ok (Sent (init_state []) pkt_pcc 3 24007000) pkt_pcc 0 1024007000 =
   Inr ((init_state [])\<lparr>pktInfoMap :=
            [6 \<mapsto> (mkPacketInfo 6 3 (ms_of_ns 24007000))
                      \<lparr>m_delay := 1000 + 1 / 2 ^ 43, m_status := EXPIRED\<rparr>],
          nPccSent := 1, nSent := 1, nSentPerHour := 1,
          sumPktsRssi := - 120, sumPktsSnr := RxPowerToSNR (- 120), nTotalPkts := 1,
          sumRssi := - 120, sumSnr := RxPowerToSNR (- 120), sumDelay := 1000 + 1 / 2 ^ 43,
          nExpired := 1, expiredPkts := [6], expPerSf := [0, 0, 0, 0, 0, 1]\<rparr>)"
  by (simp add: Ok_def Sent_pcc_at Let_def ComputeLqi_def mkPacketInfo_def delay_1000_plus
      imrDelay_def pccDelay_def vec_add_def GetIndexBasedOnSf_def)
    (simp add: pkt_pcc_def init_state_def replicate_6)

text \<open>
  Claim C6. The first delivery of a tracked packet is classified against the maximum delay
  of the packet's class with an inclusive comparison, so a packet delivered exactly at its
  deadline should be on time. The program does not do that for every packet: the IMR
  packet that is sent at 222384631399 ns and delivered 60000000000 ns later has a delay of
  exactly 60000 ms, the program computes \<open>60000 + 1 / 2 ^ 35\<close> for it, gives it the
  status \<open>EXPIRED\<close> and counts it as expired and not as received. The same happens to
  the PCC packet that is sent at 24007000 ns and delivered 1000000000 ns later.
\<close>

theorem first_delivery_at_deadline_expires:
  "(282384631399 - 222384631399 :: int) = 60000 * 1000000 \<and>
   dbl_round (ms_of_ns 282384631399 - ms_of_ns 222384631399) = 60000 + 1 / 2 ^ 35 \<and>
   map_sum id (status_of 5)
     (run cfg_default (init_state [])
        [EvSent pkt_imr 3 222384631399, EvOk pkt_imr 0 282384631399]) = Inr (Some EXPIRED) \<and>
   map_sum id nRec
     (run cfg_default (init_state [])
        [EvSent pkt_imr 3 222384631399, EvOk pkt_imr 0 282384631399]) = Inr 0 \<and>
   map_sum id nImrRec
     (run cfg_default (init_state [])
        [EvSent pkt_imr 3 222384631399, EvOk pkt_imr 0 282384631399]) = Inr 0 \<and>
   map_sum id nExpired
     (run cfg_default (init_state [])
        [EvSent pkt_imr 3 222384631399, EvOk pkt_imr 0 282384631399]) = Inr 1 \<and>
   (1024007000 - 24007000 :: int) = 1000 * 1000000 \<and>
   dbl_round (ms_of_ns 1024007000 - ms_of_ns 24007000) = 1000 + 1 / 2 ^ 43 \<and>
   map_sum id (status_of 6)
     (run cfg_default (init_state [])
        [EvSent pkt_pcc 3 24007000, EvOk pkt_pcc 0 1024007000]) = Inr (Some EXPIRED) \<and>
   map_sum id nRec
     (run cfg_default (init_state [])
        [EvSent pkt_pcc 3 24007000, EvOk pkt_pcc 0 1024007000]) = Inr 0 \<and>
   map_sum id nPccRec
     (run cfg_default (init_state [])
        [EvSent pkt_pcc 3 24007000, EvOk pkt_pcc 0 1024007000]) = Inr 0 \<and>
   map_sum id nExpired
     (run cfg_default (init_state [])
        [EvSent pkt_pcc 3 24007000, EvOk pkt_pcc 0 1024007000]) = Inr 1"
  by (simp add: Ok_imr_at_deadline Ok_pcc_at_deadline delay_60000_plus delay_1000_plus
      status_of_def)
    (simp add: init_state_def)

section \<open>The key figures when a denominator is zero\<close>

text \<open>The key figures that \<open>PrintMainData\<close> guards are zero when their denominator is.\<close>

lemma MainData_guarded_zero:
  "(nSent s \<le> 0 \<longrightarrow> pdr (MainData cfg s bits) = Fin 0) \<and>
   (nImrSent s \<le> 0 \<longrightarrow> imrPdr (MainData cfg s bits) = Fin 0) \<and>
   (nPccSent s \<le> 0 \<longrightarrow> billingPdr (MainData cfg s bits) = Fin 0) \<and>
   (nRec s \<le> 0 \<longrightarrow> avgDelay (MainData cfg s bits) = Fin 0 \<and>
      avgRssi (MainData cfg s bits) = Fin 0 \<and> avgSnr (MainData cfg s bits) = Fin 0) \<and>
   (nTotalPkts s \<le> 0 \<longrightarrow> avgPktsRssi (MainData cfg s bits) = Fin 0 \<and>
      avgPktsSnr (MainData cfg s bits) = Fin 0)"
  by (simp add: MainData_def Let_def)

lemma init_nRec: "nRec (init_state devs) = 0"
  by (simp add: init_state_def)

lemma MainData_init:
  "MainData cfg_default (init_state []) 0 =
     \<lparr>pdr = Fin 0, imrPdr = Fin 0, billingPdr = Fin 0, avgDelay = Fin 0,
      avgRssi = Fin 0, avgSnr = Fin 0, energyCons = Fin 0, tput = Fin 0,
      ee1 = NaN, ee2 = NaN, ee3 = NaN, ee4 = NaN,
      avgPktsRssi = Fin 0, avgPktsSnr = Fin 0\<rparr>"
  by (simp add: MainData_def Let_def init_state_def cfg_default_def dint_def)

lemma PrintMainData_init:
  "PrintMainData cfg_default (init_state []) =
     Inr [Fin 0, Fin 0, Fin 0, Fin 0, Fin 0, Fin 0, Fin 0, Fin 0, Fin 0, Fin 0,
          NaN, NaN,
          Fin 0, Fin 0, Fin 0, Fin 0,
          NaN, NaN, NaN, NaN,
          Fin 0, Fin 0, Fin 1]"
  by (simp add: PrintMainData_def payload_bits_def int_mul_def init_nRec MainData_init Let_def)
    (simp add: init_state_def cfg_default_def dint_def)

lemma replicate_2: "replicate 2 (0::real) = [0, 0]"
  by (simp add: numeral_eq_Suc)

lemma Ok_late_pcc:
  "Ok (Sent (init_state []) pkt_pcc 3 0) pkt_pcc 0 2000000000 =
   Inr ((init_state [])\<lparr>pktInfoMap :=
            [6 \<mapsto> (mkPacketInfo 6 3 0)\<lparr>m_delay := 2000, m_status := EXPIRED\<rparr>],
          nPccSent := 1, nSent := 1, nSentPerHour := 1,
          sumPktsRssi := - 120, sumPktsSnr := RxPowerToSNR (- 120), nTotalPkts := 1,
          sumRssi := - 120, sumSnr := RxPowerToSNR (- 120), sumDelay := 2000,
          nExpired := 1, expiredPkts := [6], expPerSf := [0, 0, 0, 0, 0, 1]\<rparr>)"
  by (simp add: Ok_def Sent_pcc Let_def ComputeLqi_def mkPacketInfo_def ms_evals
      imrDelay_def pccDelay_def vec_add_def GetIndexBasedOnSf_def)
    (simp add: pkt_pcc_def init_state_def replicate_6)

lemma PrintMainData_late_pcc:
  "PrintMainData cfg_default
     (CalcEnergyConsumption [Some 10]
        (projr (run cfg_default (init_state [])
                  [EvSent pkt_pcc 3 0, EvOk pkt_pcc 0 2000000000]))) =
     Inr [Fin 1, Fin 0, Fin 0, Fin 0, Fin 0, Fin 0, Fin 1, Fin 0, Fin 0, Fin 0,
          NaN, NaN,
          Fin 0, Fin 0, Fin (1 / 20), Fin 0,
          Fin 0, Fin 0, Fin 0, Fin 0,
          Fin (- 120), Fin (RxPowerToSNR (- 120)), Fin 1]"
  by (simp add: Ok_late_pcc PrintMainData_def payload_bits_def int_mul_def MainData_def
      CalcEnergyConsumption_def Let_def cfg_default_def dint_def)
    (simp add: init_state_def replicate_2)

text \<open>
  Claim C3. The claim asks every key figure with a zero denominator to be zero. The line
  that \<open>PrintMainData\<close> writes is evaluated for two states, with the default settings
  (mode \<open>nack\<close>, 200 devices, one day). In the initial state, where nothing was sent or
  received and no energy was consumed, the two per-class mean delays (entries 11 and 12)
  and the four energy efficiencies \<open>ee1\<close> to \<open>ee4\<close> (entries 17 to 20) are NaN. After
  a run in which one PCC packet is sent and delivered late, with 10 J consumed, the two
  per-class mean delays are NaN again, since no packet of either class was received on
  time. No error is raised in either case.
\<close>

theorem PrintMainData_zero_denominators:
  "PrintMainData cfg_default (init_state []) =
     Inr [Fin 0, Fin 0, Fin 0, Fin 0, Fin 0, Fin 0, Fin 0, Fin 0, Fin 0, Fin 0,
          NaN, NaN,
          Fin 0, Fin 0, Fin 0, Fin 0,
          NaN, NaN, NaN, NaN,
          Fin 0, Fin 0, Fin 1] \<and>
   PrintMainData cfg_default
     (CalcEnergyConsumption [Some 10]
        (projr (run cfg_default (init_state [])
                  [EvSent pkt_pcc 3 0, EvOk pkt_pcc 0 2000000000]))) =
     Inr [Fin 1, Fin 0, Fin 0, Fin 0, Fin 0, Fin 0, Fin 1, Fin 0, Fin 0, Fin 0,
          NaN, NaN,
          Fin 0, Fin 0, Fin (1 / 20), Fin 0,
          Fin 0, Fin 0, Fin 0, Fin 0,
          Fin (- 120), Fin (RxPowerToSNR (- 120)), Fin 1]"
  using PrintMainData_init PrintMainData_late_pcc by (rule conjI)

section \<open>A record leaves SENT at most once\<close>

lemma Sent_pktInfoMap:
  "pktInfoMap (Sent s pkt edId now) =
     (if pktInfoMap s (pktId pkt) = None
      then (pktInfoMap s)(pktId pkt \<mapsto> mkPacketInfo (pktId pkt) edId (ms_of_ns now))
      else pktInfoMap s)"
  by (cases "msgType pkt") (auto simp: Sent_def mkPacketInfo_def Let_def)

lemma Ok_pktInfoMap:
  assumes "Ok s pkt gwId now = Inr s'"
  shows "pktInfoMap s' = pktInfoMap s \<and>
           (\<forall>info. pktInfoMap s (pktId pkt) = Some info \<longrightarrow> m_delay info \<noteq> - 1) \<or>
         (\<exists>info st. pktInfoMap s (pktId pkt) = Some info \<and> m_delay info = - 1 \<and>
            pktInfoMap s' = (pktInfoMap s)(pktId pkt \<mapsto>
              info\<lparr>m_delay := dbl_round (ms_of_ns now - m_txTime info), m_status := st\<rparr>) \<and> st \<noteq> SENT)"
proof (cases "pktInfoMap s (pktId pkt)")
  case None
  with assms show ?thesis by (simp add: Ok_def)
next
  case (Some info)
  show ?thesis
  proof (cases "m_delay info = - 1")
    case False
    with assms Some show ?thesis
      by (simp add: Ok_def Let_def ComputeLqi_def) auto
  next
    case True
    with assms Some show ?thesis
      by (auto simp: Ok_def Let_def ComputeLqi_def split: if_splits sum.splits)
  qed
qed

lemma Ok_duplicate:
  assumes "pktInfoMap s (pktId pkt) = Some info" and "m_delay info \<noteq> - 1"
  shows "Ok s pkt gwId now = Inr (ComputeLqi s pkt)"
  using assms by (simp add: Ok_def Let_def)

lemma ReqTx_pktInfoMap:
  "pktInfoMap (RequiredTransmissionsCallback s reqTx success firstAttempt packet now) = pktInfoMap s \<or>
   (\<exists>pkt info d. pktInfoMap s (pktId pkt) = Some info \<and>
      pktInfoMap (RequiredTransmissionsCallback s reqTx success firstAttempt packet now) =
        (pktInfoMap s)(pktId pkt \<mapsto> info\<lparr>m_cpsrDelay := d\<rparr>))"
  by (auto simp: RequiredTransmissionsCallback_def split: option.splits)

lemma Tick_pktInfoMap: "pktInfoMap (CalcPdrsPerHour s) = pktInfoMap s"
  by (simp add: CalcPdrsPerHour_def Let_def)

lemma step_inv:
  assumes inv: "ledger_inv ts s" and step: "step cfg s e = Inr s'"
    and le: "\<forall>x\<in>set ts. \<forall>y\<in>set (ev_times e). x \<le> y"
  shows "ledger_inv (ts @ ev_times e) s' \<and>
         (\<forall>i info. pktInfoMap s i = Some info \<and> m_status info \<noteq> SENT \<longrightarrow>
            status_of i s' = Some (m_status info))"
proof (cases e)
  case (EvSent pkt edId now)
  with step have s': "s' = Sent s pkt edId now" by simp
  show ?thesis
    using inv unfolding s' ledger_inv_def status_of_def Sent_pktInfoMap EvSent
    by (auto simp: mkPacketInfo_def)
next
  case (EvOk pkt gwId now)
  with step have ok: "Ok s pkt gwId now = Inr s'" by simp
  from Ok_pktInfoMap [OF ok] show ?thesis
  proof
    assume "pktInfoMap s' = pktInfoMap s \<and>
           (\<forall>info. pktInfoMap s (pktId pkt) = Some info \<longrightarrow> m_delay info \<noteq> - 1)"
    with inv show ?thesis
      unfolding ledger_inv_def status_of_def EvOk by auto
  next
    assume "\<exists>info st. pktInfoMap s (pktId pkt) = Some info \<and> m_delay info = - 1 \<and>
            pktInfoMap s' = (pktInfoMap s)(pktId pkt \<mapsto>
              info\<lparr>m_delay := dbl_round (ms_of_ns now - m_txTime info), m_status := st\<rparr>) \<and> st \<noteq> SENT"
    then obtain info st where rec: "pktInfoMap s (pktId pkt) = Some info"
      and d: "m_delay info = - 1"
      and m: "pktInfoMap s' = (pktInfoMap s)(pktId pkt \<mapsto>
              info\<lparr>m_delay := dbl_round (ms_of_ns now - m_txTime info), m_status := st\<rparr>)"
      by blast
    from inv rec obtain x where x: "x \<in> set ts" "m_txTime info = ms_of_ns x"
      and fresh: "m_status info = SENT"
      using d unfolding ledger_inv_def by fastforce
    from le x EvOk have "ms_of_ns x \<le> ms_of_ns now"
      by (intro ms_of_ns_mono) simp
    with x have nonneg: "0 \<le> dbl_round (ms_of_ns now - m_txTime info)"
      by (intro dbl_round_nonneg) simp
    show ?thesis
      using inv rec fresh nonneg x unfolding ledger_inv_def status_of_def m EvOk
      by auto
  qed
next
  case (EvInterf pkt gwId)
  with step have "pktInfoMap s' = pktInfoMap s" using Interf_Inr by simp
  with inv show ?thesis
    unfolding ledger_inv_def status_of_def EvInterf by auto
next
  case (EvUnder pkt gwId)
  with step have "pktInfoMap s' = pktInfoMap s" using Under_Inr by simp
  with inv show ?thesis
    unfolding ledger_inv_def status_of_def EvUnder by auto
next
  case (EvNoMore pkt gwId)
  with step have "pktInfoMap s' = pktInfoMap s" using NoMore_Inr by simp
  with inv show ?thesis
    unfolding ledger_inv_def status_of_def EvNoMore by auto
next
  case (EvBusy pkt gwId)
  with step have "pktInfoMap s' = pktInfoMap s" using Busy_Inr by simp
  with inv show ?thesis
    unfolding ledger_inv_def status_of_def EvBusy by auto
next
  case (EvReqTx reqTx success firstAttempt packet now)
  with step have s': "s' = RequiredTransmissionsCallback s reqTx success firstAttempt packet now"
    by simp
  from ReqTx_pktInfoMap [of s reqTx success firstAttempt packet now] show ?thesis
  proof
    assume "pktInfoMap (RequiredTransmissionsCallback s reqTx success firstAttempt packet now) = pktInfoMap s"
    with inv show ?thesis
      unfolding ledger_inv_def status_of_def s' EvReqTx by auto
  next
    assume "\<exists>pkt info d. pktInfoMap s (pktId pkt) = Some info \<and>
      pktInfoMap (RequiredTransmissionsCallback s reqTx success firstAttempt packet now) =
        (pktInfoMap s)(pktId pkt \<mapsto> info\<lparr>m_cpsrDelay := d\<rparr>)"
    then obtain pkt info d where rec: "pktInfoMap s (pktId pkt) = Some info"
      and m: "pktInfoMap (RequiredTransmissionsCallback s reqTx success firstAttempt packet now) =
        (pktInfoMap s)(pktId pkt \<mapsto> info\<lparr>m_cpsrDelay := d\<rparr>)"
      by blast
    show ?thesis
      using inv rec unfolding ledger_inv_def status_of_def s' m EvReqTx
      by auto
  qed
next
  case EvTick
  with step have "pktInfoMap s' = pktInfoMap s" by (auto simp: Tick_pktInfoMap)
  with inv show ?thesis
    unfolding ledger_inv_def status_of_def EvTick by auto
qed

lemma stamps_Cons: "stamps (e # es) = ev_times e @ stamps es"
  by (simp add: stamps_def)

lemma stamps_append: "stamps (xs @ ys) = stamps xs @ stamps ys"
  by (simp add: stamps_def)

lemma run_inv:
  assumes "ledger_inv ts s" and "run cfg s evs = Inr s'" and "sorted (ts @ stamps evs)"
  shows "ledger_inv (ts @ stamps evs) s' \<and>
         (\<forall>i info. pktInfoMap s i = Some info \<and> m_status info \<noteq> SENT \<longrightarrow>
            status_of i s' = Some (m_status info))"
  using assms
proof (induction evs arbitrary: ts s)
  case Nil
  then show ?case by (simp add: stamps_def status_of_def)
next
  case (Cons e es)
  from Cons.prems(2) obtain s1 where s1: "step cfg s e = Inr s1" and rest: "run cfg s1 es = Inr s'"
    by (auto split: sum.splits)
  from Cons.prems(3) have srt: "sorted ((ts @ ev_times e) @ stamps es)"
    by (simp add: stamps_Cons)
  then have le: "\<forall>x\<in>set ts. \<forall>y\<in>set (ev_times e). x \<le> y"
    by (auto simp: sorted_append)
  from step_inv [OF Cons.prems(1) s1 le]
  have inv1: "ledger_inv (ts @ ev_times e) s1"
    and keep1: "\<forall>i info. pktInfoMap s i = Some info \<and> m_status info \<noteq> SENT \<longrightarrow>
            status_of i s1 = Some (m_status info)"
    by blast+
  from Cons.IH [OF inv1 rest srt]
  have inv': "ledger_inv ((ts @ ev_times e) @ stamps es) s'"
    and keep': "\<forall>i info. pktInfoMap s1 i = Some info \<and> m_status info \<noteq> SENT \<longrightarrow>
            status_of i s' = Some (m_status info)"
    by blast+
  have "status_of i s' = Some (m_status info)"
    if "pktInfoMap s i = Some info" and "m_status info \<noteq> SENT" for i info
  proof -
    from keep1 that have "status_of i s1 = Some (m_status info)" by blast
    then obtain info1 where "pktInfoMap s1 i = Some info1" "m_status info1 = m_status info"
      by (auto simp: status_of_def)
    with keep' that(2) show ?thesis by metis
  qed
  with inv' show ?case by (simp add: stamps_Cons)
qed

lemma ledger_inv_init: "ledger_inv [] (init_state devs)"
  by (simp add: ledger_inv_def init_state_def)

lemma run_s_delivered:
  "run cfg_default (init_state []) [EvSent pkt_imr 3 0, EvOk pkt_imr 0 5000000] = Inr s_delivered"
  by (simp add: Ok_def Sent_imr Let_def ComputeLqi_def mkPacketInfo_def ms_evals
      imrDelay_def vec_add_def s_delivered_def)
    (simp add: pkt_imr_def init_state_def replicate_2)

lemma Ok_s_delivered:
  "Ok s_delivered pkt_imr 1 7000000 =
     Inr (s_delivered\<lparr>sumPktsRssi := - 200, sumPktsSnr := 2 * RxPowerToSNR (- 100),
            nTotalPkts := 2\<rparr>)"
  by (simp add: Ok_def Let_def ComputeLqi_def mkPacketInfo_def s_delivered_def)
    (simp add: pkt_imr_def init_state_def)

lemma run_after_s_delivered:
  "run cfg_default s_delivered [EvOk pkt_imr 1 7000000, EvInterf pkt_imr 1] =
     Inr (projr (run cfg_default s_delivered [EvOk pkt_imr 1 7000000, EvInterf pkt_imr 1]))"
  by (simp add: Ok_s_delivered Interf_def cfg_default_def ComputeLqi_def vec_add_def Let_def)
    (simp add: s_delivered_def init_state_def pkt_imr_def replicate_6)

text \<open>
  Claim C1, as amended. In a run from the initial state under a clock that never goes
  back, a record that has left \<open>SENT\<close> keeps its status through every later event:
  the status of a packet id changes at most once. In such a state a delivery event for the
  packet, processed again, changes no record and no counter of deliveries, expiries or
  spreading factors: it only adds the reading to the sums over all observed packets
  (\<open>sumPktsRssi\<close>, \<open>sumPktsSnr\<close>, \<open>nTotalPkts\<close>). A loss event leaves the
  ledger as it is and adds one to the counter of its cause each time it is processed.
\<close>

theorem status_leaves_SENT_at_most_once:
  assumes "run cfg (init_state devs) evs = Inr s" and "run cfg s evs' = Inr s'"
    and "clock_mono (evs @ evs')"
    and "pktInfoMap s i = Some info" and "m_status info \<noteq> SENT"
  shows "status_of i s' = Some (m_status info) \<and>
         (\<forall>pkt gwId now. pktId pkt = i \<longrightarrow>
            Ok s pkt gwId now =
              Inr (s\<lparr>sumPktsRssi := sumPktsRssi s + receivePower pkt,
                     sumPktsSnr := sumPktsSnr s + RxPowerToSNR (receivePower pkt),
                     nTotalPkts := nTotalPkts s + 1\<rparr>)) \<and>
         (\<forall>pkt gwId s1.
            (Interf cfg s pkt gwId = Inr s1 \<longrightarrow>
               pktInfoMap s1 = pktInfoMap s \<and> nInterf s1 = nInterf s + 1) \<and>
            (Under s pkt gwId = Inr s1 \<longrightarrow>
               pktInfoMap s1 = pktInfoMap s \<and> nUnder s1 = nUnder s + 1) \<and>
            (NoMore s pkt gwId = Inr s1 \<longrightarrow>
               pktInfoMap s1 = pktInfoMap s \<and> nNoMore s1 = nNoMore s + 1) \<and>
            (Busy s pkt gwId = Inr s1 \<longrightarrow>
               pktInfoMap s1 = pktInfoMap s \<and> nBusy s1 = nBusy s + 1))"
proof -
  from assms(3) have srt: "sorted (stamps evs @ stamps evs')"
    by (simp add: clock_mono_def stamps_append)
  then have "sorted ([] @ stamps evs)" by (simp add: sorted_append)
  from run_inv [OF ledger_inv_init assms(1) this] have inv: "ledger_inv (stamps evs) s"
    by simp
  from run_inv [OF inv assms(2) srt] assms(4,5)
  have keep: "status_of i s' = Some (m_status info)" by blast
  from inv assms(4,5) have "m_delay info \<noteq> - 1"
    unfolding ledger_inv_def by fastforce
  then have "Ok s pkt gwId now = Inr (ComputeLqi s pkt)" if "pktId pkt = i" for pkt gwId now
    using assms(4) that by (intro Ok_duplicate) auto
  then have again: "\<forall>pkt gwId now. pktId pkt = i \<longrightarrow>
            Ok s pkt gwId now =
              Inr (s\<lparr>sumPktsRssi := sumPktsRssi s + receivePower pkt,
                     sumPktsSnr := sumPktsSnr s + RxPowerToSNR (receivePower pkt),
                     nTotalPkts := nTotalPkts s + 1\<rparr>)"
    by (simp add: ComputeLqi_def)
  have loss: "\<forall>pkt gwId s1.
            (Interf cfg s pkt gwId = Inr s1 \<longrightarrow>
               pktInfoMap s1 = pktInfoMap s \<and> nInterf s1 = nInterf s + 1) \<and>
            (Under s pkt gwId = Inr s1 \<longrightarrow>
               pktInfoMap s1 = pktInfoMap s \<and> nUnder s1 = nUnder s + 1) \<and>
            (NoMore s pkt gwId = Inr s1 \<longrightarrow>
               pktInfoMap s1 = pktInfoMap s \<and> nNoMore s1 = nNoMore s + 1) \<and>
            (Busy s pkt gwId = Inr s1 \<longrightarrow>
               pktInfoMap s1 = pktInfoMap s \<and> nBusy s1 = nBusy s + 1)"
    using Interf_Inr Under_Inr NoMore_Inr Busy_Inr by blast
  show ?thesis
    by (rule conjI [OF keep conjI [OF again loss]])
qed

text \<open>
  Packet 5 is sent and delivered on time; a second delivery and an interference loss of
  the same packet follow.
\<close>

theorem status_leaves_SENT_at_most_once_witness:
  "run cfg_default (init_state []) [EvSent pkt_imr 3 0, EvOk pkt_imr 0 5000000] = Inr s_delivered \<and>
   clock_mono ([EvSent pkt_imr 3 0, EvOk pkt_imr 0 5000000] @
               [EvOk pkt_imr 1 7000000, EvInterf pkt_imr 1]) \<and>
   status_of 5 s_delivered = Some OK \<and>
   status_of 5 (projr (run cfg_default s_delivered [EvOk pkt_imr 1 7000000, EvInterf pkt_imr 1]))
     = Some OK \<and>
   Ok s_delivered pkt_imr 1 7000000 =
     Inr (s_delivered\<lparr>sumPktsRssi := - 200,
            sumPktsSnr := RxPowerToSNR (- 100) + RxPowerToSNR (- 100), nTotalPkts := 2\<rparr>)"
proof -
  have mono: "clock_mono ([EvSent pkt_imr 3 0, EvOk pkt_imr 0 5000000] @
               [EvOk pkt_imr 1 7000000, EvInterf pkt_imr 1])"
    by (simp add: clock_mono_def stamps_def)
  have rec: "pktInfoMap s_delivered 5 = Some ((mkPacketInfo 5 3 0)\<lparr>m_delay := 5, m_status := OK\<rparr>)"
    by (simp add: s_delivered_def)
  have terminal: "m_status ((mkPacketInfo 5 3 0)\<lparr>m_delay := 5, m_status := OK\<rparr>) \<noteq> SENT"
    by simp
  have keep: "status_of 5 (projr (run cfg_default s_delivered
                  [EvOk pkt_imr 1 7000000, EvInterf pkt_imr 1])) =
              Some (m_status ((mkPacketInfo 5 3 0)\<lparr>m_delay := 5, m_status := OK\<rparr>))"
    using status_leaves_SENT_at_most_once
      [OF run_s_delivered run_after_s_delivered mono rec terminal]
    by (rule conjunct1)
  show ?thesis
  proof (intro conjI)
    show "run cfg_default (init_state []) [EvSent pkt_imr 3 0, EvOk pkt_imr 0 5000000] =
            Inr s_delivered"
      by (rule run_s_delivered)
    show "clock_mono ([EvSent pkt_imr 3 0, EvOk pkt_imr 0 5000000] @
               [EvOk pkt_imr 1 7000000, EvInterf pkt_imr 1])"
      by (rule mono)
    show "status_of 5 s_delivered = Some OK"
      by (simp add: status_of_def rec)
    show "status_of 5 (projr (run cfg_default s_delivered
            [EvOk pkt_imr 1 7000000, EvInterf pkt_imr 1])) = Some OK"
      using keep by (simp del: run.simps)
    show "Ok s_delivered pkt_imr 1 7000000 =
            Inr (s_delivered\<lparr>sumPktsRssi := - 200,
                   sumPktsSnr := RxPowerToSNR (- 100) + RxPowerToSNR (- 100),
                   nTotalPkts := 2\<rparr>)"
      by (simp add: Ok_s_delivered)
  qed
qed

text \<open>
  The claim as written has a replayed loss event count once. An interference loss of
  packet 5 processed twice is counted twice, in \<open>nInterf\<close>, in \<open>nLost\<close> and in
  the bucket of spreading factor 9.
\<close>

theorem loss_event_replay_counts_twice_counterexample:
  "map_sum id nInterf
     (run cfg_default (init_state []) [EvSent pkt_imr 3 0, EvInterf pkt_imr 0, EvInterf pkt_imr 0])
     = Inr 2 \<and>
   map_sum id interfPerSf
     (run cfg_default (init_state []) [EvSent pkt_imr 3 0, EvInterf pkt_imr 0, EvInterf pkt_imr 0])
     = Inr [0, 0, 2, 0, 0, 0] \<and>
   map_sum id nLost
     (run cfg_default (init_state []) [EvSent pkt_imr 3 0, EvInterf pkt_imr 0, EvInterf pkt_imr 0])
     = Inr 2"
  by (simp add: Sent_imr Interf_def cfg_default_def ComputeLqi_def vec_add_def Let_def)
    (simp add: init_state_def pkt_imr_def replicate_6)

section \<open>Sent packets and their outcomes\<close>

lemma Sent_counts:
  "nSent (Sent s pkt edId now) = nSent s + (if pktInfoMap s (pktId pkt) = None then 1 else 0) \<and>
   outcomes (Sent s pkt edId now) = outcomes s"
  by (cases "msgType pkt") (auto simp: Sent_def Let_def outcomes_def split: option.splits)

lemma Ok_counts:
  assumes ok: "Ok s pkt gwId now = Inr s'"
    and rec: "pktInfoMap s (pktId pkt) = Some info" and first: "m_delay info = - 1"
  shows "nSent s' = nSent s \<and> outcomes s' = outcomes s + 1"
proof -
  let ?d = "dbl_round (ms_of_ns now - m_txTime info)"
  consider (imr) "msgType pkt = IMR \<and> ?d \<le> imrDelay"
    | (pcc) "\<not> (msgType pkt = IMR \<and> ?d \<le> imrDelay)" "msgType pkt = PCC \<and> ?d \<le> pccDelay"
    | (late) "\<not> (msgType pkt = IMR \<and> ?d \<le> imrDelay)" "\<not> (msgType pkt = PCC \<and> ?d \<le> pccDelay)"
    by blast
  then show ?thesis
  proof cases
    case imr
    with ok show ?thesis
      by (auto simp: Ok_def rec first Let_def ComputeLqi_def outcomes_def split: sum.splits)
  next
    case pcc
    with ok show ?thesis
      by (auto simp: Ok_def rec first Let_def ComputeLqi_def outcomes_def split: sum.splits)
  next
    case late
    with ok show ?thesis
      by (auto simp: Ok_def rec first Let_def ComputeLqi_def outcomes_def split: sum.splits)
  qed
qed

lemma Under_counts:
  assumes "Under s pkt gwId = Inr s'"
  shows "nSent s' = nSent s \<and> outcomes s' = outcomes s + 1"
  using assms
  by (auto simp: Under_def Let_def ComputeLqi_def outcomes_def split: sum.splits)

lemma NoMore_counts:
  assumes "NoMore s pkt gwId = Inr s'"
  shows "nSent s' = nSent s \<and> outcomes s' = outcomes s + 1"
  using assms
  by (auto simp: NoMore_def Let_def ComputeLqi_def outcomes_def split: sum.splits)

lemma Busy_counts:
  assumes "Busy s pkt gwId = Inr s'"
  shows "nSent s' = nSent s \<and> outcomes s' = outcomes s + 1"
  using assms
  by (auto simp: Busy_def Let_def ComputeLqi_def outcomes_def split: sum.splits)

lemma Interf_counts:
  assumes "Interf cfg s pkt gwId = Inr s'"
  shows "nSent s' = nSent s \<and> outcomes s' = outcomes s + 1"
proof -
  from assms obtain v where v: "vec_add (interfPerSf s) (uint (spreadingFactor pkt) - 7) 1 = Inr v"
    by (cases "vec_add (interfPerSf s) (uint (spreadingFactor pkt) - 7) 1")
      (simp_all add: Interf_def Let_def ComputeLqi_def)
  define s3 where "s3 = (ComputeLqi (s\<lparr>nInterf := nInterf s + 1, nLost := nLost s + 1\<rparr>) pkt)
                 \<lparr>interfPerSf := v, interfPkts := interfPkts s @ [uid pkt]\<rparr>"
  have "Interf cfg s pkt gwId =
          (if sfa cfg = ''asfa'' then
             if unat (GetEdId s3 pkt) < length (endDevices s3) then
               Inr (s3\<lparr>endDevices := (endDevices s3)[unat (GetEdId s3 pkt) :=
                      (if 12 - spreadingFactor pkt > 0 then 12 - spreadingFactor pkt - 1 else 0)]\<rparr>)
             else Inl OutOfBounds
           else Inr s3)"
    using v by (simp add: Interf_def Let_def s3_def ComputeLqi_def)
  with assms have "(\<exists>d. s' = s3\<lparr>endDevices := d\<rparr>) \<or> s' = s3"
    by (auto split: if_splits)
  then have "nSent s' = nSent s3 \<and> outcomes s' = outcomes s3"
    by (auto simp: outcomes_def)
  then show ?thesis
    by (simp add: s3_def ComputeLqi_def outcomes_def)
qed

lemma ReqTx_counts:
  "nSent (RequiredTransmissionsCallback s reqTx success firstAttempt packet now) = nSent s \<and>
   outcomes (RequiredTransmissionsCallback s reqTx success firstAttempt packet now) = outcomes s"
  by (auto simp: RequiredTransmissionsCallback_def outcomes_def split: option.splits)

lemma ReqTx_ledger:
  "dom (pktInfoMap (RequiredTransmissionsCallback s reqTx success firstAttempt packet now)) =
     dom (pktInfoMap s) \<and>
   map_option m_delay
     (pktInfoMap (RequiredTransmissionsCallback s reqTx success firstAttempt packet now) i) =
     map_option m_delay (pktInfoMap s i)"
  by (auto simp: RequiredTransmissionsCallback_def split: option.splits)

lemma Tick_counts:
  "nSent (CalcPdrsPerHour s) = nSent s \<and> outcomes (CalcPdrsPerHour s) = outcomes s"
  by (simp add: CalcPdrsPerHour_def Let_def outcomes_def)

lemma count_invI:
  assumes "finite pend" and "pend \<subseteq> seen" and "dom (pktInfoMap s) = seen"
    and "\<And>i. i \<in> pend \<Longrightarrow> map_option m_delay (pktInfoMap s i) = Some (- 1)"
    and "nSent s = int (card pend) + outcomes s"
  shows "count_inv pend seen s"
  using assms by (simp add: count_inv_def)

lemma count_invD:
  assumes "count_inv pend seen s"
  shows "finite pend" and "pend \<subseteq> seen" and "dom (pktInfoMap s) = seen"
    and "\<And>i. i \<in> pend \<Longrightarrow> map_option m_delay (pktInfoMap s i) = Some (- 1)"
    and "nSent s = int (card pend) + outcomes s"
  using assms by (simp_all add: count_inv_def)

text \<open>
  An event that leaves the delays of the ledger alone, and the difference between sent and
  resolved packets, keeps the invariant.
\<close>

lemma count_inv_same:
  assumes inv: "count_inv pend seen s"
    and d: "dom (pktInfoMap s') = dom (pktInfoMap s)"
    and m: "\<And>i. map_option m_delay (pktInfoMap s' i) = map_option m_delay (pktInfoMap s i)"
    and c: "nSent s' = nSent s \<and> outcomes s' = outcomes s"
  shows "count_inv pend seen s'"
proof (rule count_invI)
  show "finite pend" by (rule count_invD(1) [OF inv])
  show "pend \<subseteq> seen" by (rule count_invD(2) [OF inv])
  show "dom (pktInfoMap s') = seen" using d count_invD(3) [OF inv] by simp
  show "map_option m_delay (pktInfoMap s' i) = Some (- 1)" if "i \<in> pend" for i
    using m [of i] count_invD(4) [OF inv that] by simp
  show "nSent s' = int (card pend) + outcomes s'"
    using c count_invD(5) [OF inv] by simp
qed

text \<open>An outcome of a pending packet keeps the invariant with the packet resolved.\<close>

lemma count_inv_resolve:
  assumes inv: "count_inv pend seen s" and i: "i \<in> pend"
    and d: "dom (pktInfoMap s') = dom (pktInfoMap s)"
    and m: "\<And>j. j \<noteq> i \<Longrightarrow> pktInfoMap s' j = pktInfoMap s j"
    and c: "nSent s' = nSent s \<and> outcomes s' = outcomes s + 1"
  shows "count_inv (pend - {i}) seen s'"
proof (rule count_invI)
  have fin: "finite pend" by (rule count_invD(1) [OF inv])
  then show "finite (pend - {i})" by simp
  show "pend - {i} \<subseteq> seen" using count_invD(2) [OF inv] by blast
  show "dom (pktInfoMap s') = seen" using d count_invD(3) [OF inv] by simp
  show "map_option m_delay (pktInfoMap s' j) = Some (- 1)" if "j \<in> pend - {i}" for j
  proof -
    from that have "j \<noteq> i" "j \<in> pend" by auto
    with m [of j] count_invD(4) [OF inv, of j] show ?thesis by simp
  qed
  from fin i have "card pend = Suc (card (pend - {i}))"
    by (rule card.remove)
  then show "nSent s' = int (card (pend - {i})) + outcomes s'"
    using c count_invD(5) [OF inv] by simp
qed

lemma step_count:
  assumes inv: "count_inv pend seen s" and step: "step cfg s e = Inr s'"
    and res: "resolved_once pend seen (e # es)"
  shows "\<exists>pend' seen'. count_inv pend' seen' s' \<and> resolved_once pend' seen' es"
proof (cases e)
  case (EvSent pkt edId now)
  with step have s': "s' = Sent s pkt edId now" by simp
  show ?thesis
  proof (cases "pktId pkt \<in> seen")
    case True
    with count_invD(3) [OF inv] have known: "pktInfoMap s (pktId pkt) \<noteq> None"
      by blast
    then have same: "pktInfoMap s' = pktInfoMap s"
      by (auto simp: s' Sent_pktInfoMap)
    from known have "nSent s' = nSent s \<and> outcomes s' = outcomes s"
      using Sent_counts [of s pkt edId now] by (simp add: s')
    then have "count_inv pend seen s'"
      by (intro count_inv_same [OF inv]) (simp_all add: same)
    moreover from res True EvSent have "resolved_once pend seen es" by simp
    ultimately show ?thesis by blast
  next
    case False
    with count_invD(3) [OF inv] have new: "pktInfoMap s (pktId pkt) = None"
      by blast
    from False count_invD(2) [OF inv] have notin: "pktId pkt \<notin> pend" by blast
    have fin: "finite pend" by (rule count_invD(1) [OF inv])
    have m: "pktInfoMap s' =
        (pktInfoMap s)(pktId pkt \<mapsto> mkPacketInfo (pktId pkt) edId (ms_of_ns now))"
      by (simp add: s' Sent_pktInfoMap new)
    have "count_inv (insert (pktId pkt) pend) (insert (pktId pkt) seen) s'"
    proof (rule count_invI)
      show "finite (insert (pktId pkt) pend)" using fin by simp
      show "insert (pktId pkt) pend \<subseteq> insert (pktId pkt) seen"
        using count_invD(2) [OF inv] by blast
      show "dom (pktInfoMap s') = insert (pktId pkt) seen"
        using count_invD(3) [OF inv] by (simp add: m)
      show "map_option m_delay (pktInfoMap s' i) = Some (- 1)"
        if "i \<in> insert (pktId pkt) pend" for i
      proof (cases "i = pktId pkt")
        case True
        then show ?thesis by (simp add: m mkPacketInfo_def)
      next
        case False
        with that have "i \<in> pend" by simp
        with False count_invD(4) [OF inv, of i] show ?thesis by (simp add: m)
      qed
      from fin notin have "card (insert (pktId pkt) pend) = Suc (card pend)" by simp
      then show "nSent s' = int (card (insert (pktId pkt) pend)) + outcomes s'"
        using Sent_counts [of s pkt edId now] new count_invD(5) [OF inv] by (simp add: s')
    qed
    moreover from res False EvSent
    have "resolved_once (insert (pktId pkt) pend) (insert (pktId pkt) seen) es" by simp
    ultimately show ?thesis by blast
  qed
next
  case (EvOk pkt gwId now)
  with step have ok: "Ok s pkt gwId now = Inr s'" by simp
  from res EvOk have i: "pktId pkt \<in> pend" and rest: "resolved_once (pend - {pktId pkt}) seen es"
    by simp_all
  from count_invD(4) [OF inv i] obtain info where rec: "pktInfoMap s (pktId pkt) = Some info"
    and first: "m_delay info = - 1"
    by auto
  from Ok_pktInfoMap [OF ok] rec first obtain st where
    m: "pktInfoMap s' = (pktInfoMap s)(pktId pkt \<mapsto>
          info\<lparr>m_delay := dbl_round (ms_of_ns now - m_txTime info), m_status := st\<rparr>)"
    by auto
  have "dom (pktInfoMap s') = dom (pktInfoMap s)"
    using rec by (auto simp: m)
  moreover have "pktInfoMap s' j = pktInfoMap s j" if "j \<noteq> pktId pkt" for j
    using that by (simp add: m)
  ultimately have "count_inv (pend - {pktId pkt}) seen s'"
    using Ok_counts [OF ok rec first] by (intro count_inv_resolve [OF inv i])
  with rest show ?thesis by blast
next
  case (EvInterf pkt gwId)
  with step have h: "Interf cfg s pkt gwId = Inr s'" by simp
  from res EvInterf have i: "pktId pkt \<in> pend" and rest: "resolved_once (pend - {pktId pkt}) seen es"
    by simp_all
  from Interf_Inr [OF h] have "pktInfoMap s' = pktInfoMap s" by simp
  then have "count_inv (pend - {pktId pkt}) seen s'"
    using Interf_counts [OF h] by (intro count_inv_resolve [OF inv i]) simp_all
  with rest show ?thesis by blast
next
  case (EvUnder pkt gwId)
  with step have h: "Under s pkt gwId = Inr s'" by simp
  from res EvUnder have i: "pktId pkt \<in> pend" and rest: "resolved_once (pend - {pktId pkt}) seen es"
    by simp_all
  from Under_Inr [OF h] have "pktInfoMap s' = pktInfoMap s" by simp
  then have "count_inv (pend - {pktId pkt}) seen s'"
    using Under_counts [OF h] by (intro count_inv_resolve [OF inv i]) simp_all
  with rest show ?thesis by blast
next
  case (EvNoMore pkt gwId)
  with step have h: "NoMore s pkt gwId = Inr s'" by simp
  from res EvNoMore have i: "pktId pkt \<in> pend" and rest: "resolved_once (pend - {pktId pkt}) seen es"
    by simp_all
  from NoMore_Inr [OF h] have "pktInfoMap s' = pktInfoMap s" by simp
  then have "count_inv (pend - {pktId pkt}) seen s'"
    using NoMore_counts [OF h] by (intro count_inv_resolve [OF inv i]) simp_all
  with rest show ?thesis by blast
next
  case (EvBusy pkt gwId)
  with step have h: "Busy s pkt gwId = Inr s'" by simp
  from res EvBusy have i: "pktId pkt \<in> pend" and rest: "resolved_once (pend - {pktId pkt}) seen es"
    by simp_all
  from Busy_Inr [OF h] have "pktInfoMap s' = pktInfoMap s" by simp
  then have "count_inv (pend - {pktId pkt}) seen s'"
    using Busy_counts [OF h] by (intro count_inv_resolve [OF inv i]) simp_all
  with rest show ?thesis by blast
next
  case (EvReqTx reqTx success firstAttempt packet now)
  with step have s': "s' = RequiredTransmissionsCallback s reqTx success firstAttempt packet now"
    by simp
  have "count_inv pend seen s'"
    using ReqTx_counts [of s reqTx success firstAttempt packet now]
      ReqTx_ledger [of s reqTx success firstAttempt packet now]
    by (intro count_inv_same [OF inv]) (simp_all add: s')
  moreover from res EvReqTx have "resolved_once pend seen es" by simp
  ultimately show ?thesis by blast
next
  case EvTick
  with step have s': "s' = CalcPdrsPerHour s" by simp
  have "count_inv pend seen s'"
    using Tick_counts [of s]
    by (intro count_inv_same [OF inv]) (simp_all add: s' Tick_pktInfoMap)
  moreover from res EvTick have "resolved_once pend seen es" by simp
  ultimately show ?thesis by blast
qed

lemma run_count:
  assumes "count_inv pend seen s" and "run cfg s evs = Inr s'" and "resolved_once pend seen evs"
  shows "nSent s' = outcomes s'"
  using assms
proof (induction evs arbitrary: pend seen s)
  case Nil
  then show ?case by (simp add: count_inv_def)
next
  case (Cons e es)
  from Cons.prems(2) obtain s1 where s1: "step cfg s e = Inr s1" and rest: "run cfg s1 es = Inr s'"
    by (auto split: sum.splits)
  from step_count [OF Cons.prems(1) s1 Cons.prems(3)]
  obtain pend' seen' where inv': "count_inv pend' seen' s1" and res': "resolved_once pend' seen' es"
    by blast
  show ?case by (rule Cons.IH [OF inv' rest res'])
qed

lemma count_inv_init: "count_inv {} {} (init_state devs)"
  by (simp add: count_inv_def init_state_def outcomes_def)

lemma Ok_sent_imr:
  "Ok (Sent (init_state []) pkt_imr 3 0) pkt_imr 0 5000000 = Inr s_delivered"
  by (simp add: Ok_def Sent_imr Let_def ComputeLqi_def mkPacketInfo_def ms_evals
      imrDelay_def vec_add_def s_delivered_def)
    (simp add: pkt_imr_def init_state_def replicate_2)

lemma Sent_pcc_after:
  "Sent s_delivered pkt_pcc 4 6000000 =
     s_delivered\<lparr>pktInfoMap := (pktInfoMap s_delivered)(6 \<mapsto> mkPacketInfo 6 4 6),
        nPccSent := 1, nSent := 2, nSentPerHour := 2\<rparr>"
  by (simp add: Sent_def Let_def ms_evals mkPacketInfo_def)
    (simp add: s_delivered_def init_state_def pkt_pcc_def pktId_def ms_evals mkPacketInfo_def)

lemma Under_pcc_after:
  "Under (Sent s_delivered pkt_pcc 4 6000000) pkt_pcc 0 =
     Inr ((Sent s_delivered pkt_pcc 4 6000000)\<lparr>nUnder := 1, nLost := 1,
            sumPktsRssi := - 220,
            sumPktsSnr := RxPowerToSNR (- 100) + RxPowerToSNR (- 120),
            nTotalPkts := 2, underPkts := [6], underPerSf := [0, 0, 0, 0, 0, 1]\<rparr>)"
  by (simp add: Under_def Let_def ComputeLqi_def vec_add_def GetIndexBasedOnSf_def Sent_pcc_after)
    (simp add: s_delivered_def init_state_def pkt_pcc_def replicate_6)

lemma run_evs_resolved:
  "run cfg_default (init_state []) evs_resolved =
     Inr ((Sent s_delivered pkt_pcc 4 6000000)\<lparr>nUnder := 1, nLost := 1,
            sumPktsRssi := - 220,
            sumPktsSnr := RxPowerToSNR (- 100) + RxPowerToSNR (- 120),
            nTotalPkts := 2, underPkts := [6], underPerSf := [0, 0, 0, 0, 0, 1]\<rparr>)"
  by (simp add: evs_resolved_def Ok_sent_imr Under_pcc_after)

lemma Interf_untracked_after:
  "Interf cfg_default s_delivered pkt_pcc 0 =
     Inr (s_delivered\<lparr>nInterf := 1, nLost := 1, sumPktsRssi := - 220,
            sumPktsSnr := RxPowerToSNR (- 100) + RxPowerToSNR (- 120),
            nTotalPkts := 2, interfPerSf := [0, 0, 0, 0, 0, 1], interfPkts := [6]\<rparr>)"
  by (simp add: Interf_def Let_def ComputeLqi_def vec_add_def cfg_default_def)
    (simp add: s_delivered_def init_state_def pkt_pcc_def replicate_6)

text \<open>
  Claim C2, as amended. In a run from the initial state in which every outcome event is for
  a packet that was sent and has no outcome yet, and every sent packet gets an outcome, the
  final counters satisfy
  \<open>nSent = nRec + nExpired + (nInterf + nUnder + nNoMore + nBusy)\<close>.
\<close>

theorem sent_equals_outcomes:
  assumes "run cfg (init_state devs) evs = Inr s" and "resolved_once {} {} evs"
  shows "nSent s = nRec s + nExpired s + (nInterf s + nUnder s + nNoMore s + nBusy s)"
  using run_count [OF count_inv_init assms] by (simp add: outcomes_def)

text \<open>The run \<open>evs_resolved\<close>: two packets sent, one received, one lost.\<close>

theorem sent_equals_outcomes_witness:
  "resolved_once {} {} evs_resolved \<and>
   nSent (projr (run cfg_default (init_state []) evs_resolved)) = 2 \<and>
   nRec (projr (run cfg_default (init_state []) evs_resolved)) = 1 \<and>
   nExpired (projr (run cfg_default (init_state []) evs_resolved)) = 0 \<and>
   nInterf (projr (run cfg_default (init_state []) evs_resolved)) = 0 \<and>
   nUnder (projr (run cfg_default (init_state []) evs_resolved)) = 1 \<and>
   nNoMore (projr (run cfg_default (init_state []) evs_resolved)) = 0 \<and>
   nBusy (projr (run cfg_default (init_state []) evs_resolved)) = 0"
proof -
  have res: "resolved_once {} {} evs_resolved"
    by (simp add: evs_resolved_def)
  have vals: "nRec s_delivered = 1" "nExpired s_delivered = 0" "nInterf s_delivered = 0"
    "nNoMore s_delivered = 0" "nBusy s_delivered = 0"
    by (simp_all add: s_delivered_def init_state_def)
  show ?thesis
    using sent_equals_outcomes [OF run_evs_resolved res] res
    by (simp add: run_evs_resolved Sent_pcc_after vals)
qed

text \<open>
  The claim as written constrains the sent packets only. When packet 5 is sent and
  delivered, and an interference loss of packet 6, which was never sent, follows, every
  sent packet has exactly one outcome, yet \<open>nSent\<close> is 1 and the outcomes add up
  to 2.
\<close>

theorem untracked_loss_breaks_balance_counterexample:
  "map_sum id nSent
     (run cfg_default (init_state [])
        [EvSent pkt_imr 3 0, EvOk pkt_imr 0 5000000, EvInterf pkt_pcc 0]) = Inr 1 \<and>
   map_sum id nRec
     (run cfg_default (init_state [])
        [EvSent pkt_imr 3 0, EvOk pkt_imr 0 5000000, EvInterf pkt_pcc 0]) = Inr 1 \<and>
   map_sum id nExpired
     (run cfg_default (init_state [])
        [EvSent pkt_imr 3 0, EvOk pkt_imr 0 5000000, EvInterf pkt_pcc 0]) = Inr 0 \<and>
   map_sum id nInterf
     (run cfg_default (init_state [])
        [EvSent pkt_imr 3 0, EvOk pkt_imr 0 5000000, EvInterf pkt_pcc 0]) = Inr 1 \<and>
   map_sum id nUnder
     (run cfg_default (init_state [])
        [EvSent pkt_imr 3 0, EvOk pkt_imr 0 5000000, EvInterf pkt_pcc 0]) = Inr 0 \<and>
   map_sum id nNoMore
     (run cfg_default (init_state [])
        [EvSent pkt_imr 3 0, EvOk pkt_imr 0 5000000, EvInterf pkt_pcc 0]) = Inr 0 \<and>
   map_sum id nBusy
     (run cfg_default (init_state [])
        [EvSent pkt_imr 3 0, EvOk pkt_imr 0 5000000, EvInterf pkt_pcc 0]) = Inr 0"
  by (simp add: Ok_sent_imr Interf_untracked_after)
    (simp add: s_delivered_def init_state_def)

end
